theory Spec2Isabelle
  imports Main
begin

section \<open>Strings\<close>

text \<open>
  JavaScript strings are modelled as \<^typ>\<open>string\<close>: lists of characters whose code
  unit is below 256. The helpers below are the string methods the generator calls.
\<close>

text \<open>\<^verbatim>\<open>s.startsWith(p)\<close>\<close>

fun startsWith :: "string \<Rightarrow> string \<Rightarrow> bool" where
  "startsWith s [] = True"
| "startsWith [] (p # ps) = False"
| "startsWith (c # cs) (p # ps) = (c = p \<and> startsWith cs ps)"

text \<open>\<^verbatim>\<open>s.endsWith(p)\<close>\<close>

definition endsWith :: "string \<Rightarrow> string \<Rightarrow> bool" where
  "endsWith s p = startsWith (rev s) (rev p)"

text \<open>\<^verbatim>\<open>s.includes(p)\<close>: \<open>p\<close> occurs in \<open>s\<close> as a contiguous substring.\<close>

fun includesStr :: "string \<Rightarrow> string \<Rightarrow> bool" where
  "includesStr [] p = (p = [])"
| "includesStr (c # cs) p = (startsWith (c # cs) p \<or> includesStr cs p)"

text \<open>
  White space as \<^verbatim>\<open>String.prototype.trim\<close> and the regular expression class
  \<^verbatim>\<open>\s\<close> see it, among the characters below 256: tab, line feed, vertical tab,
  form feed, carriage return, space and the no-break space.
\<close>

definition isSpace :: "char \<Rightarrow> bool" where
  "isSpace c = (c \<in> set [CHR 0x09, CHR 0x0A, CHR 0x0B, CHR 0x0C, CHR 0x0D, CHR 0x20, CHR 0xA0])"

definition trim :: "string \<Rightarrow> string" where
  "trim s = rev (dropWhile isSpace (rev (dropWhile isSpace s)))"

text \<open>The class \<^verbatim>\<open>[\w.]\<close>: ASCII letters, digits, underscore and the dot.\<close>

definition isDigit :: "char \<Rightarrow> bool" where
  "isDigit c = (c \<in> set ''0123456789'')"

definition isWordDot :: "char \<Rightarrow> bool" where
  "isWordDot c =
     (c \<in> set ''abcdefghijklmnopqrstuvwxyz'' \<or> c \<in> set ''ABCDEFGHIJKLMNOPQRSTUVWXYZ''
       \<or> isDigit c \<or> c = CHR ''_'' \<or> c = CHR ''.'')"

text \<open>
  One attempt of the pattern \<^verbatim>\<open>kw\s+([\w.]+);\<close> at the start of \<open>s\<close>: the
  captured group and the text after the match. Both repetitions are greedy, and the
  character that has to follow each of them is outside its class, so giving characters
  back never turns a failed attempt into a match.
\<close>

definition matchDecl :: "string \<Rightarrow> string \<Rightarrow> (string \<times> string) option" where
  "matchDecl kw s =
     (if startsWith s kw then
        (let r = drop (length kw) s;
             r2 = dropWhile isSpace r;
             w = takeWhile isWordDot r2;
             r3 = dropWhile isWordDot r2
         in if r2 \<noteq> r \<and> w \<noteq> [] \<and> startsWith r3 '';'' then Some (w, tl r3) else None)
      else None)"

text \<open>\<^verbatim>\<open>content.match(/package\s+([\w.]+);/)\<close>: the first position that matches.\<close>

fun extractPackage :: "string \<Rightarrow> string" where
  "extractPackage [] = []"
| "extractPackage (c # cs) =
     (case matchDecl ''package'' (c # cs) of
        Some (w, rest) \<Rightarrow> w
      | None \<Rightarrow> extractPackage cs)"

text \<open>
  \<^verbatim>\<open>content.matchAll(/import\s+([\w.]+);/g)\<close>: after a match the search resumes
  behind it, otherwise one character further.
\<close>

function extractImports :: "string \<Rightarrow> string list" where
  "extractImports s =
     (if s = [] then []
      else (case matchDecl ''import'' s of
              Some (w, rest) \<Rightarrow> w # extractImports rest
            | None \<Rightarrow> extractImports (tl s)))"
  by pat_completeness auto
termination
proof (relation "measure length")
  show "wf (measure length)" by simp
next
  fix s :: string and x2 w rest
  assume "s \<noteq> []" and m: "matchDecl ''import'' s = Some x2" and x2: "(w, rest) = x2"
  let ?r2 = "dropWhile isSpace (drop (length ''import'') s)"
  let ?r3 = "dropWhile isWordDot ?r2"
  from m x2 have "matchDecl ''import'' s = Some (w, rest)" by simp
  then have both: "startsWith ?r3 '';'' \<and> rest = tl ?r3"
    unfolding matchDecl_def Let_def by (simp split: if_splits)
  then have r3: "startsWith ?r3 '';''" and rest: "rest = tl ?r3" by blast+
  have "startsWith xs '';'' \<Longrightarrow> length (tl xs) < length xs" for xs
    by (cases xs) auto
  from this [OF r3] have "length (tl ?r3) < length ?r3" .
  also have "\<dots> \<le> length ?r2" by (rule length_dropWhile_le)
  also have "\<dots> \<le> length (drop (length ''import'') s)" by (rule length_dropWhile_le)
  also have "\<dots> \<le> length s" by simp
  finally show "(rest, s) \<in> measure length" using rest by simp
next
  fix s :: string
  assume "s \<noteq> []"
  then show "(tl s, s) \<in> measure length" by (cases s) auto
qed

declare extractImports.simps [simp del]

section \<open>Syntax trees\<close>

text \<open>
  A node of the tree that tree-sitter returns: its grammar type, the text it spans
  (\<open>ntext n\<close> stands for \<^verbatim>\<open>content.substring(n.startIndex, n.endIndex)\<close>), whether
  it is a named node, the field name under which its parent holds it, and its children
  in source order.
\<close>

datatype node =
  Node (ntype: string) (ntext: string) (isNamed: bool) (fieldName: "string option")
       (children: "node list")

definition namedChildren :: "node \<Rightarrow> node list" where
  "namedChildren n = filter isNamed (children n)"

definition childForFieldName :: "node \<Rightarrow> string \<Rightarrow> node option" where
  "childForFieldName n f = find (\<lambda>c. fieldName c = Some f) (children n)"

text \<open>\<^verbatim>\<open>getNodeText\<close>: the empty string for a missing node.\<close>

definition getNodeText :: "node option \<Rightarrow> string" where
  "getNodeText n = (case n of None \<Rightarrow> [] | Some m \<Rightarrow> ntext m)"

text \<open>
  \<^verbatim>\<open>traverseTree\<close>: the callback runs on the node, then on each child's subtree, in
  order. What the callback mutates is the state \<open>s\<close> that is passed along.
\<close>

fun traverseTree :: "node \<Rightarrow> (node \<Rightarrow> 's \<Rightarrow> 's) \<Rightarrow> 's \<Rightarrow> 's" where
  "traverseTree (Node t x nm f cs) callback s =
     fold (\<lambda>c. traverseTree c callback) cs (callback (Node t x nm f cs) s)"

text \<open>The nodes in the order in which \<open>traverseTree\<close> visits them.\<close>

fun preorder :: "node \<Rightarrow> node list" where
  "preorder (Node t x nm f cs) = Node t x nm f cs # concat (map preorder cs)"

section \<open>Entity descriptions\<close>

record EnumValue =
  ev_name :: string
  ev_value :: int

record EnumInfo =
  en_name :: string
  en_package :: string
  en_category :: string
  en_sourcePath :: string
  en_values :: "EnumValue list"

section \<open>Enumeration extraction\<close>

text \<open>
  The built-in \<^verbatim>\<open>parseInt\<close> is a parameter of the extractor: a function from the
  argument text to the integer read from its start, \<open>None\<close> standing for \<^verbatim>\<open>NaN\<close>.
\<close>

type_synonym parser = "string \<Rightarrow> int option"

text \<open>
  The double nearest to an integer, ties going to the even significand of 53 bits: the
  number that JavaScript holds for it; \<open>ulpOf\<close> is the spacing of the doubles at that
  magnitude, and \<open>9007199254740992\<close> is \<open>2^53\<close>. (An integer beyond the range of
  doubles, which JavaScript turns into \<^verbatim>\<open>Infinity\<close>, has no counterpart here.)
\<close>

function ulpOf :: "int \<Rightarrow> int" where
  "ulpOf a = (if a < 9007199254740992 then 1 else 2 * ulpOf (a div 2))"
  by pat_completeness auto
termination
  by (relation "measure nat") auto

declare ulpOf.simps [simp del]

definition roundToDouble :: "int \<Rightarrow> int" where
  "roundToDouble m =
     (let a = \<bar>m\<bar>;
          u = ulpOf a;
          q = a div u;
          r = a mod u;
          up = (2 * r > u \<or> (2 * r = u \<and> odd q));
          v = (if up then q + 1 else q) * u
      in if m < 0 then - v else v)"

text \<open>
  The standard \<^verbatim>\<open>parseInt\<close> itself: leading white space is skipped, a sign is read,
  a \<^verbatim>\<open>0x\<close> prefix selects radix 16, and the longest run of digits of the radix is
  the value, as a number; no digit at all gives \<^verbatim>\<open>NaN\<close>.
\<close>

definition hexVal :: "char \<Rightarrow> nat option" where
  "hexVal c = map_of (zip ''0123456789abcdef'' [0..<16] @ zip ''ABCDEF'' [10..<16]) c"

definition radixDigits :: "nat \<Rightarrow> string \<Rightarrow> nat list" where
  "radixDigits r s =
     map (\<lambda>c. the (hexVal c))
       (takeWhile (\<lambda>c. case hexVal c of None \<Rightarrow> False | Some d \<Rightarrow> d < r) s)"

definition parseIntJS :: parser where
  "parseIntJS s =
     (let t = dropWhile isSpace s;
          neg = startsWith t ''-'';
          u = (if startsWith t ''-'' \<or> startsWith t ''+'' then tl t else t);
          hex = (startsWith u ''0x'' \<or> startsWith u ''0X'');
          r = (if hex then 16 else 10);
          ds = radixDigits r (if hex then drop 2 u else u)
      in if ds = [] then None
         else (let m = int (fold (\<lambda>d acc. acc * r + d) ds 0)
               in Some (roundToDouble (if neg then - m else m))))"

text \<open>The callback of \<^verbatim>\<open>extractEnumInfo\<close>; the state is the array \<^verbatim>\<open>values\<close>.\<close>

definition enumCallback :: "parser \<Rightarrow> node \<Rightarrow> EnumValue list \<Rightarrow> EnumValue list" where
  "enumCallback parseInt child values =
     (if ntype child = ''enum_constant'' then
        (let name = getNodeText (childForFieldName child ''name'') in
         if name \<noteq> [] then
           (let value0 = int (length values);
                value =
                  (case childForFieldName child ''arguments'' of
                     None \<Rightarrow> value0
                   | Some args \<Rightarrow>
                       (case namedChildren args of
                          [] \<Rightarrow> value0
                        | firstArg # _ \<Rightarrow>
                            (case parseInt (getNodeText (Some firstArg)) of
                               None \<Rightarrow> value0
                             | Some parsed \<Rightarrow> parsed)))
            in values @ [\<lparr>ev_name = name, ev_value = value\<rparr>])
         else values)
      else values)"

definition extractEnumInfo :: "parser \<Rightarrow> node \<Rightarrow> string \<Rightarrow> string \<Rightarrow> string \<Rightarrow> EnumInfo option" where
  "extractEnumInfo parseInt n content category relPath =
     (let enumName = getNodeText (childForFieldName n ''name'') in
      if enumName = [] then None
      else
        (let packageName = extractPackage content;
             values =
               (case childForFieldName n ''body'' of
                  None \<Rightarrow> []
                | Some body \<Rightarrow> traverseTree body (enumCallback parseInt) [])
         in Some \<lparr>en_name = enumName, en_package = packageName, en_category = category,
                  en_sourcePath = relPath, en_values = values\<rparr>))"

section \<open>Message types\<close>

record FieldInfo =
  fi_name :: string
  fi_javaType :: string
  fi_nullable :: bool
  fi_defaultValue :: "string option"
  fi_maxLength :: "int option"
  fi_wireOffset :: "int option"
  fi_wireSize :: "int option"
  fi_isVariable :: bool
  fi_encoding :: string

record DataClassInfo =
  dc_name :: string
  dc_package :: string
  dc_category :: string
  dc_sourcePath :: string
  dc_fields :: "FieldInfo list"
  dc_imports :: "string list"

text \<open>\<open>pk_packetId\<close> and \<open>pk_deserializeContext\<close> are the optional properties.\<close>

record PacketInfo =
  pk_name :: string
  pk_package :: string
  pk_category :: string
  pk_packetId :: "int option"
  pk_isCompressed :: bool
  pk_nullableBitFieldSize :: int
  pk_fixedBlockSize :: int
  pk_variableFieldCount :: int
  pk_variableBlockStart :: int
  pk_maxSize :: int
  pk_fields :: "FieldInfo list"
  pk_imports :: "string list"
  pk_isEnum :: bool
  pk_isDataClass :: bool
  pk_deserializeContext :: "string option"

text \<open>
  The same traversal for callbacks that read \<^verbatim>\<open>node.parent\<close>: each node comes
  with the chain of its ancestors, the parent first.
\<close>

fun traverseTreeP :: "node list \<Rightarrow> node \<Rightarrow> (node list \<Rightarrow> node \<Rightarrow> 's \<Rightarrow> 's) \<Rightarrow> 's \<Rightarrow> 's" where
  "traverseTreeP anc (Node t x nm f cs) callback s =
     fold (\<lambda>c. traverseTreeP (Node t x nm f cs # anc) c callback) cs
       (callback anc (Node t x nm f cs) s)"

fun preorderP :: "node list \<Rightarrow> node \<Rightarrow> (node list \<times> node) list" where
  "preorderP anc (Node t x nm f cs) =
     (anc, Node t x nm f cs) # concat (map (preorderP (Node t x nm f cs # anc)) cs)"

text \<open>
  \<^verbatim>\<open>child.children.find(c => c.type === 'modifiers')\<close> and the text of what it
  finds, empty when there is none.
\<close>

definition findChildOfType :: "node \<Rightarrow> string \<Rightarrow> node option" where
  "findChildOfType n t = find (\<lambda>c. ntype c = t) (children n)"

definition modifiersText :: "node \<Rightarrow> string" where
  "modifiersText n =
     (case findChildOfType n ''modifiers'' of None \<Rightarrow> [] | Some m \<Rightarrow> getNodeText (Some m))"

subsection \<open>Constants\<close>

text \<open>The callback of \<^verbatim>\<open>extractConstants\<close>; the state is the packet.\<close>

definition constCallback :: "parser \<Rightarrow> node \<Rightarrow> PacketInfo \<Rightarrow> PacketInfo" where
  "constCallback parseInt child packet =
     (if ntype child = ''field_declaration'' then
        (let modText = modifiersText child in
         if includesStr modText ''static'' \<and> includesStr modText ''final'' then
           (case findChildOfType child ''variable_declarator'' of
              None \<Rightarrow> packet
            | Some declarator \<Rightarrow>
                (let name = getNodeText (childForFieldName declarator ''name'');
                     value = getNodeText (childForFieldName declarator ''value'')
                 in if name \<noteq> [] \<and> value \<noteq> [] then
                      (if name = ''IS_COMPRESSED'' then
                         packet\<lparr>pk_isCompressed := (value = ''true'')\<rparr>
                       else
                         (case parseInt value of
                            None \<Rightarrow> packet
                          | Some numValue \<Rightarrow>
                              if name = ''PACKET_ID'' then packet\<lparr>pk_packetId := Some numValue\<rparr>
                              else if name = ''NULLABLE_BIT_FIELD_SIZE'' then
                                packet\<lparr>pk_nullableBitFieldSize := numValue\<rparr>
                              else if name = ''FIXED_BLOCK_SIZE'' then
                                packet\<lparr>pk_fixedBlockSize := numValue\<rparr>
                              else if name = ''VARIABLE_FIELD_COUNT'' then
                                packet\<lparr>pk_variableFieldCount := numValue\<rparr>
                              else if name = ''VARIABLE_BLOCK_START'' then
                                packet\<lparr>pk_variableBlockStart := numValue\<rparr>
                              else if name = ''MAX_SIZE'' then packet\<lparr>pk_maxSize := numValue\<rparr>
                              else packet))
                    else packet))
         else packet)
      else packet)"

definition extractConstants :: "parser \<Rightarrow> node \<Rightarrow> PacketInfo \<Rightarrow> PacketInfo" where
  "extractConstants parseInt n packet =
     (case childForFieldName n ''body'' of
        None \<Rightarrow> packet
      | Some body \<Rightarrow> traverseTree body (constCallback parseInt) packet)"

subsection \<open>Fields\<close>

definition extractFieldInfo :: "node \<Rightarrow> FieldInfo option" where
  "extractFieldInfo n =
     (case (childForFieldName n ''type'', findChildOfType n ''variable_declarator'') of
        (Some typeNode, Some declarator) \<Rightarrow>
          (let name = getNodeText (childForFieldName declarator ''name'');
               javaType = getNodeText (Some typeNode)
           in if name = [] \<or> javaType = [] then None
              else
                Some \<lparr>fi_name = name, fi_javaType = javaType,
                      fi_nullable = includesStr (modifiersText n) ''@Nullable'',
                      fi_defaultValue = None, fi_maxLength = None, fi_wireOffset = None,
                      fi_wireSize = None, fi_isVariable = False, fi_encoding = []\<rparr>)
      | _ \<Rightarrow> None)"

text \<open>\<^verbatim>\<open>findParentClass\<close>, on the chain of ancestors of the node.\<close>

definition findParentClass :: "node list \<Rightarrow> node option" where
  "findParentClass anc = find (\<lambda>a. ntype a = ''class_declaration'') anc"

text \<open>
  The first traversal of \<^verbatim>\<open>extractFieldsFromConstructor\<close>. The state is the pair of
  \<^verbatim>\<open>bestConstructor\<close> and \<^verbatim>\<open>maxParams\<close>; the early \<^verbatim>\<open>return\<close> for a copy
  constructor leaves it as it is.
\<close>

definition ctorCallback ::
  "node list \<Rightarrow> node \<Rightarrow> node option \<times> nat \<Rightarrow> node option \<times> nat" where
  "ctorCallback anc child st =
     (if ntype child = ''constructor_declaration'' then
        (case childForFieldName child ''parameters'' of
           None \<Rightarrow> st
         | Some params \<Rightarrow>
             (let paramCount =
                    length (filter (\<lambda>p. ntype p = ''formal_parameter'' \<or> ntype p = ''spread_parameter'')
                              (namedChildren params));
                  skip =
                    (paramCount = 1 \<and>
                     (case find (\<lambda>p. ntype p = ''formal_parameter'') (namedChildren params) of
                        None \<Rightarrow> False
                      | Some firstParam \<Rightarrow>
                          (let paramType = getNodeText (childForFieldName firstParam ''type'') in
                           case findParentClass anc of
                             None \<Rightarrow> False
                           | Some parentClass \<Rightarrow>
                               paramType = getNodeText (childForFieldName parentClass ''name''))))
              in if skip then st
                 else if paramCount > snd st then (Some child, paramCount)
                 else st))
      else st)"

text \<open>The loop over the parameters of the chosen constructor.\<close>

definition paramField :: "node \<Rightarrow> FieldInfo list" where
  "paramField param =
     (if ntype param = ''formal_parameter'' then
        (case (childForFieldName param ''type'', childForFieldName param ''name'') of
           (Some typeNode, Some nameNode) \<Rightarrow>
             [\<lparr>fi_name = getNodeText (Some nameNode), fi_javaType = getNodeText (Some typeNode),
               fi_nullable = includesStr (modifiersText param) ''@Nullable'',
               fi_defaultValue = None, fi_maxLength = None, fi_wireOffset = None,
               fi_wireSize = None, fi_isVariable = False, fi_encoding = []\<rparr>]
         | _ \<Rightarrow> [])
      else [])"

text \<open>\<open>anc\<close> is the chain of ancestors of \<open>body\<close>.\<close>

definition extractFieldsFromConstructor :: "node list \<Rightarrow> node \<Rightarrow> FieldInfo list" where
  "extractFieldsFromConstructor anc body =
     (case fst (traverseTreeP anc body ctorCallback (None, 0)) of
        None \<Rightarrow> []
      | Some bestConstructor \<Rightarrow>
          (case childForFieldName bestConstructor ''parameters'' of
             None \<Rightarrow> []
           | Some params \<Rightarrow> concat (map paramField (namedChildren params))))"

text \<open>The callback of the fallback traversal of \<^verbatim>\<open>extractFields\<close>.\<close>

definition fieldCallback :: "node \<Rightarrow> PacketInfo \<Rightarrow> PacketInfo" where
  "fieldCallback child packet =
     (if ntype child = ''field_declaration'' then
        (if includesStr (modifiersText child) ''static'' then packet
         else
           (case extractFieldInfo child of
              None \<Rightarrow> packet
            | Some fieldInfo \<Rightarrow> packet\<lparr>pk_fields := pk_fields packet @ [fieldInfo]\<rparr>))
      else packet)"

text \<open>\<open>anc\<close> is the chain of ancestors of the class node \<open>n\<close>.\<close>

definition extractFields :: "node list \<Rightarrow> node \<Rightarrow> PacketInfo \<Rightarrow> PacketInfo" where
  "extractFields anc n packet =
     (case childForFieldName n ''body'' of
        None \<Rightarrow> packet
      | Some body \<Rightarrow>
          (let constructorFields = extractFieldsFromConstructor (n # anc) body in
           if length constructorFields > 0 then packet\<lparr>pk_fields := constructorFields\<rparr>
           else traverseTree body fieldCallback packet))"

subsection \<open>Deserialization context\<close>

text \<open>\<^verbatim>\<open>parts.join(sep)\<close>\<close>

fun joinStr :: "string \<Rightarrow> string list \<Rightarrow> string" where
  "joinStr sep [] = []"
| "joinStr sep [x] = x"
| "joinStr sep (x # y # ys) = x @ sep @ joinStr sep (y # ys)"

text \<open>\<^verbatim>\<open>set.add(x)\<close> on a set that is later read in insertion order.\<close>

definition setAdd :: "'a \<Rightarrow> 'a list \<Rightarrow> 'a list" where
  "setAdd x xs = (if x \<in> set xs then xs else xs @ [x])"

definition getMethodName :: "node \<Rightarrow> string option" where
  "getMethodName n =
     (case childForFieldName n ''name'' of
        Some nameNode \<Rightarrow> Some (getNodeText (Some nameNode))
      | None \<Rightarrow>
          (case childForFieldName n ''object'' of
             None \<Rightarrow> None
           | Some objectNode \<Rightarrow>
               if ntype objectNode = ''field_access'' then
                 (case childForFieldName objectNode ''field'' of
                    None \<Rightarrow> None
                  | Some fieldNode \<Rightarrow> Some (getNodeText (Some fieldNode)))
               else None))"

definition relevantNames :: "string list" where
  "relevantNames =
     [''PACKET_ID'', ''IS_COMPRESSED'', ''NULLABLE_BIT_FIELD_SIZE'', ''FIXED_BLOCK_SIZE'',
      ''VARIABLE_FIELD_COUNT'', ''VARIABLE_BLOCK_START'', ''MAX_SIZE'']"

definition relevantCallback :: "node \<Rightarrow> string list \<Rightarrow> string list" where
  "relevantCallback child constants =
     (if ntype child = ''field_declaration'' then
        (let modText = modifiersText child in
         if includesStr modText ''static'' \<and> includesStr modText ''final'' then
           (case findChildOfType child ''variable_declarator'' of
              None \<Rightarrow> constants
            | Some declarator \<Rightarrow>
                (let name = getNodeText (childForFieldName declarator ''name'') in
                 if name \<noteq> [] \<and> name \<in> set relevantNames
                 then constants @ [trim (getNodeText (Some child))]
                 else constants))
         else constants)
      else constants)"

definition extractRelevantConstants :: "node \<Rightarrow> string list" where
  "extractRelevantConstants body = traverseTree body relevantCallback []"

definition calledCallback :: "node \<Rightarrow> string list \<Rightarrow> string list" where
  "calledCallback n calledMethods =
     (if ntype n = ''method_invocation'' then
        (case getMethodName n of
           None \<Rightarrow> calledMethods
         | Some methodName \<Rightarrow>
             if methodName \<noteq> [] then setAdd methodName calledMethods else calledMethods)
      else calledMethods)"

definition staticMethodCallback :: "string list \<Rightarrow> node \<Rightarrow> string list \<Rightarrow> string list" where
  "staticMethodCallback calledMethods child methods =
     (if ntype child = ''method_declaration'' then
        (if includesStr (modifiersText child) ''static'' then
           (let methodName = getNodeText (childForFieldName child ''name'') in
            if methodName \<noteq> [] \<and>
               (methodName \<in> set calledMethods \<or> methodName = ''computeBytesConsumed''
                 \<or> methodName = ''validateStructure'')
            then methods @ [getNodeText (Some child)]
            else methods)
         else methods)
      else methods)"

definition extractStaticMethods :: "node \<Rightarrow> node \<Rightarrow> string list" where
  "extractStaticMethods body deserializeMethod =
     (let calledMethods = traverseTree deserializeMethod calledCallback []
      in traverseTree body (staticMethodCallback calledMethods) [])"

text \<open>
  The traversal of the deserialize method in \<^verbatim>\<open>extractDeserializeContext\<close>; the
  state is the pair of \<^verbatim>\<open>referencedMethods\<close> and \<^verbatim>\<open>referencedTypes\<close>.
\<close>

definition referenceCallback :: "node \<Rightarrow> string list \<times> string list \<Rightarrow> string list \<times> string list" where
  "referenceCallback n st =
     (if ntype n = ''method_invocation'' then
        (case getMethodName n of
           None \<Rightarrow> st
         | Some methodName \<Rightarrow>
             if methodName \<noteq> [] then
               (case childForFieldName n ''object'' of
                  None \<Rightarrow> st
                | Some objectNode \<Rightarrow>
                    (let objectName = getNodeText (Some objectNode);
                         ms = setAdd (objectName @ ''.'' @ methodName) (fst st);
                         ts = (if methodName = ''deserialize'' \<or> methodName = ''fromValue''
                               then setAdd objectName (snd st) else snd st)
                     in (ms, ts)))
             else st)
      else st)"

definition glossary :: "string list" where
  "glossary =
     [''// === COMMON PACKETIO METHODS REFERENCE ==='',
      ''// PacketIO.readFixedAsciiString(buf, offset, length) - reads fixed-length ASCII string'',
      ''// PacketIO.readVarString(buf, pos, charset) - reads variable-length string with VarInt prefix'',
      ''// PacketIO.readVarAsciiString(buf, pos, maxLen) - reads variable ASCII string'',
      ''// PacketIO.readUUID(buf, offset) - reads 16-byte UUID'',
      ''// VarInt.peek(buf, pos) - reads VarInt value without advancing'',
      ''// VarInt.length(buf, pos) - gets byte length of VarInt at position'',
      ''// buf.getByte(offset) - reads 1 byte'',
      ''// buf.getIntLE(offset) - reads 4-byte little-endian int'',
      ''// buf.getLongLE(offset) - reads 8-byte little-endian long'',
      ''// buf.getShortLE(offset) - reads 2-byte little-endian short'']"

definition fieldLine :: "FieldInfo \<Rightarrow> string" where
  "fieldLine field =
     (if fi_nullable field then ''@Nullable '' else ''@Nonnull '') @ fi_javaType field @ '' ''
       @ fi_name field @ '';''"

definition extractDeserializeContext :: "node \<Rightarrow> node \<Rightarrow> PacketInfo \<Rightarrow> string" where
  "extractDeserializeContext classNode deserializeMethod packet =
     (let className = getNodeText (childForFieldName classNode ''name'');
          header = [''// Packet: '' @ className, ''// Package: '' @ pk_package packet, []];
          body = childForFieldName classNode ''body'';
          constants = (case body of None \<Rightarrow> [] | Some b \<Rightarrow> extractRelevantConstants b);
          constantPart =
            (if length constants > 0 then [''// === CONSTANTS ===''] @ constants @ [[]] else []);
          fieldPart = [''// === FIELDS ===''] @ map fieldLine (pk_fields packet) @ [[]];
          methodPart =
            [''// === DESERIALIZE METHOD ==='', getNodeText (Some deserializeMethod), []];
          refs = traverseTree deserializeMethod referenceCallback ([], []);
          staticMethods =
            (case body of None \<Rightarrow> [] | Some b \<Rightarrow> extractStaticMethods b deserializeMethod);
          staticPart =
            (if length staticMethods > 0
             then [''// === STATIC HELPER METHODS (same class) ===''] @ staticMethods @ [[]]
             else []);
          dependencyPart =
            (if length (fst refs) > 0 \<or> length (snd refs) > 0 then
               [''// === EXTERNAL DEPENDENCIES ===''] @
               (if length (fst refs) > 0 then [''// Methods used: '' @ joinStr '', '' (fst refs)]
                else []) @
               (if length (snd refs) > 0
                then [''// Types referenced: '' @ joinStr '', '' (snd refs)] else []) @
               [[]]
             else [])
      in joinStr [CHR 0x0A]
           (header @ constantPart @ fieldPart @ methodPart @ staticPart @ dependencyPart
             @ glossary))"

text \<open>The traversal of \<^verbatim>\<open>extractLayout\<close>: the last method named \<^verbatim>\<open>deserialize\<close>.\<close>

definition layoutCallback :: "node \<Rightarrow> node option \<Rightarrow> node option" where
  "layoutCallback child deserializeMethod =
     (if ntype child = ''method_declaration''
         \<and> getNodeText (childForFieldName child ''name'') = ''deserialize''
      then Some child else deserializeMethod)"

definition extractLayout :: "node \<Rightarrow> PacketInfo \<Rightarrow> PacketInfo" where
  "extractLayout n packet =
     (case childForFieldName n ''body'' of
        None \<Rightarrow> packet
      | Some body \<Rightarrow>
          (case traverseTree body layoutCallback None of
             None \<Rightarrow> packet
           | Some deserializeMethod \<Rightarrow>
               packet\<lparr>pk_deserializeContext :=
                        Some (extractDeserializeContext n deserializeMethod packet)\<rparr>))"

subsection \<open>Messages and data aggregates\<close>

text \<open>\<open>anc\<close> is the chain of ancestors of the class node \<open>n\<close>.\<close>

definition extractPacketInfo :: "parser \<Rightarrow> node list \<Rightarrow> node \<Rightarrow> string \<Rightarrow> string \<Rightarrow> PacketInfo" where
  "extractPacketInfo parseInt anc n content category =
     (let className0 = getNodeText (childForFieldName n ''name'');
          className = (if className0 = [] then ''Unknown'' else className0);
          packageName = extractPackage content;
          packet =
            \<lparr>pk_name = className, pk_package = packageName, pk_category = category,
             pk_packetId = None, pk_isCompressed = False, pk_nullableBitFieldSize = 0,
             pk_fixedBlockSize = 0, pk_variableFieldCount = 0, pk_variableBlockStart = 0,
             pk_maxSize = 0, pk_fields = [], pk_imports = extractImports content,
             pk_isEnum = False, pk_isDataClass = False, pk_deserializeContext = None\<rparr>
      in extractLayout n (extractFields anc n (extractConstants parseInt n packet)))"

definition dataFieldCallback :: "node \<Rightarrow> FieldInfo list \<Rightarrow> FieldInfo list" where
  "dataFieldCallback child fieldList =
     (if ntype child = ''field_declaration'' then
        (case extractFieldInfo child of
           None \<Rightarrow> fieldList
         | Some fieldInfo \<Rightarrow> fieldList @ [fieldInfo])
      else fieldList)"

definition extractDataClassInfo :: "node \<Rightarrow> string \<Rightarrow> string \<Rightarrow> string \<Rightarrow> DataClassInfo option" where
  "extractDataClassInfo n content category relPath =
     (let className = getNodeText (childForFieldName n ''name'') in
      if className = [] then None
      else
        (let packageName = extractPackage content;
             fieldList =
               (case childForFieldName n ''body'' of
                  None \<Rightarrow> []
                | Some body \<Rightarrow> traverseTree body dataFieldCallback [])
         in Some \<lparr>dc_name = className, dc_package = packageName, dc_category = category,
                  dc_sourcePath = relPath, dc_fields = fieldList,
                  dc_imports = extractImports content\<rparr>))"

section \<open>Files and directories\<close>

text \<open>
  A source file as the parser sees it: what \<^verbatim>\<open>readFileSync\<close> gives (\<open>None\<close> when
  reading throws) and the root node of the tree that tree-sitter returns for it (\<open>None\<close>
  when there is no tree).
\<close>

record sourceFile =
  sf_content :: "string option"
  sf_tree :: "node option"

text \<open>
  A directory listing as \<^verbatim>\<open>readdirSync\<close> and \<^verbatim>\<open>statSync\<close> give it: entries in
  order, each a file or a sub-directory with its own listing.
\<close>

datatype entry = FileEntry string sourceFile | DirEntry string "entry list"

text \<open>
  \<^verbatim>\<open>path.join(relPath, entry)\<close> for a relative path built by this function and the
  name of a directory entry; \<open>sep\<close> is the separator of the platform.
\<close>

definition pathJoin :: "string \<Rightarrow> string \<Rightarrow> string \<Rightarrow> string" where
  "pathJoin sep relPath name = (if relPath = [] then name else relPath @ sep @ name)"

text \<open>\<^verbatim>\<open>relPath.replace(/\\/g, '/') || dflt\<close>\<close>

definition replaceBackslash :: "string \<Rightarrow> string" where
  "replaceBackslash s = map (\<lambda>c. if c = CHR 0x5C then CHR ''/'' else c) s"

definition categoryOf :: "string \<Rightarrow> string \<Rightarrow> string" where
  "categoryOf dflt relPath =
     (let r = replaceBackslash relPath in if r = [] then dflt else r)"

text \<open>
  The three directory walks have one shape: for each entry in order, a sub-directory is
  walked with the joined path unless its name is to be skipped, and a file whose name ends
  in \<^verbatim>\<open>.java\<close> is handed to the file function together with the relative path.
\<close>

fun walkEntry ::
    "string \<Rightarrow> (string \<Rightarrow> bool) \<Rightarrow> (sourceFile \<Rightarrow> string \<Rightarrow> 's \<Rightarrow> 's) \<Rightarrow> entry \<Rightarrow> string \<Rightarrow> 's \<Rightarrow> 's"
  and walkEntries ::
    "string \<Rightarrow> (string \<Rightarrow> bool) \<Rightarrow> (sourceFile \<Rightarrow> string \<Rightarrow> 's \<Rightarrow> 's) \<Rightarrow> entry list \<Rightarrow> string \<Rightarrow> 's \<Rightarrow> 's"
  where
  "walkEntry sep skip act (DirEntry name sub) relPath st =
     (if skip name then st else walkEntries sep skip act sub (pathJoin sep relPath name) st)"
| "walkEntry sep skip act (FileEntry name file) relPath st =
     (if endsWith name ''.java'' then act file relPath st else st)"
| "walkEntries sep skip act [] relPath st = st"
| "walkEntries sep skip act (e # es) relPath st =
     walkEntries sep skip act es relPath (walkEntry sep skip act e relPath st)"

subsection \<open>Shared entities\<close>

record parserState =
  enums :: "string \<rightharpoonup> EnumInfo"
  dataClasses :: "string \<rightharpoonup> DataClassInfo"

definition entityCallback ::
  "parser \<Rightarrow> string \<Rightarrow> string \<Rightarrow> string \<Rightarrow> node \<Rightarrow> parserState \<Rightarrow> parserState" where
  "entityCallback parseInt content category relPath n st =
     (if ntype n = ''enum_declaration'' then
        (case extractEnumInfo parseInt n content category relPath of
           None \<Rightarrow> st
         | Some enumInfo \<Rightarrow> st\<lparr>enums := (enums st)(en_name enumInfo \<mapsto> enumInfo)\<rparr>)
      else if ntype n = ''class_declaration'' then
        (case extractDataClassInfo n content category relPath of
           None \<Rightarrow> st
         | Some dataClassInfo \<Rightarrow>
             if \<not> includesStr (dc_name dataClassInfo) ''Packet''
             then st\<lparr>dataClasses := (dataClasses st)(dc_name dataClassInfo \<mapsto> dataClassInfo)\<rparr>
             else st)
      else st)"

definition parseEntityFile :: "parser \<Rightarrow> sourceFile \<Rightarrow> string \<Rightarrow> parserState \<Rightarrow> parserState" where
  "parseEntityFile parseInt file relPath st =
     (case sf_content file of
        None \<Rightarrow> st
      | Some content \<Rightarrow>
          if length (trim content) = 0 then st
          else
            (case sf_tree file of
               None \<Rightarrow> st
             | Some rootNode \<Rightarrow>
                 traverseTree rootNode
                   (entityCallback parseInt content (categoryOf ''root'' relPath) relPath) st))"

text \<open>The walk skips every directory named \<^verbatim>\<open>packets\<close>.\<close>

definition parseEntityDirectory ::
  "string \<Rightarrow> parser \<Rightarrow> entry list \<Rightarrow> string \<Rightarrow> parserState \<Rightarrow> parserState" where
  "parseEntityDirectory sep parseInt entries relPath st =
     walkEntries sep (\<lambda>name. name = ''packets'') (parseEntityFile parseInt) entries relPath st"

subsection \<open>Enums beside the messages\<close>

definition enumOnlyCallback ::
  "parser \<Rightarrow> string \<Rightarrow> string \<Rightarrow> string \<Rightarrow> node \<Rightarrow> parserState \<Rightarrow> parserState" where
  "enumOnlyCallback parseInt content category relPath n st =
     (if ntype n = ''enum_declaration'' then
        (case extractEnumInfo parseInt n content category relPath of
           None \<Rightarrow> st
         | Some enumInfo \<Rightarrow>
             if enums st (en_name enumInfo) = None
             then st\<lparr>enums := (enums st)(en_name enumInfo \<mapsto> enumInfo)\<rparr>
             else st)
      else st)"

definition parseEnumsFromFile :: "parser \<Rightarrow> sourceFile \<Rightarrow> string \<Rightarrow> parserState \<Rightarrow> parserState" where
  "parseEnumsFromFile parseInt file relPath st =
     (case sf_content file of
        None \<Rightarrow> st
      | Some content \<Rightarrow>
          if length (trim content) = 0 then st
          else
            (case sf_tree file of
               None \<Rightarrow> st
             | Some rootNode \<Rightarrow>
                 traverseTree rootNode
                   (enumOnlyCallback parseInt content (categoryOf ''root'' relPath) relPath) st))"

definition parseEnumsFromPacketsDirectory ::
  "string \<Rightarrow> parser \<Rightarrow> entry list \<Rightarrow> string \<Rightarrow> parserState \<Rightarrow> parserState" where
  "parseEnumsFromPacketsDirectory sep parseInt entries relPath st =
     walkEntries sep (\<lambda>name. False) (parseEnumsFromFile parseInt) entries relPath st"

subsection \<open>Messages\<close>

text \<open>The callback of \<^verbatim>\<open>parsePacketFile\<close>; the state is \<^verbatim>\<open>packetInfo\<close>.\<close>

definition packetCallback ::
  "parser \<Rightarrow> string \<Rightarrow> string \<Rightarrow> node list \<Rightarrow> node \<Rightarrow> PacketInfo option \<Rightarrow> PacketInfo option" where
  "packetCallback parseInt content category anc n packetInfo =
     (if ntype n = ''class_declaration'' then
        (let className = getNodeText (childForFieldName n ''name'') in
         if className \<noteq> [] then Some (extractPacketInfo parseInt anc n content category)
         else packetInfo)
      else packetInfo)"

definition parsePacketFile :: "parser \<Rightarrow> sourceFile \<Rightarrow> string \<Rightarrow> PacketInfo option" where
  "parsePacketFile parseInt file relPath =
     (case sf_content file of
        None \<Rightarrow> None
      | Some content \<Rightarrow>
          if length (trim content) = 0 then None
          else
            (case sf_tree file of
               None \<Rightarrow> None
             | Some rootNode \<Rightarrow>
                 traverseTreeP [] rootNode
                   (packetCallback parseInt content (categoryOf ''uncategorized'' relPath)) None))"

text \<open>The file function of \<^verbatim>\<open>parsePacketDirectory\<close>; the state is the map \<^verbatim>\<open>result\<close>.\<close>

definition addPacketFile ::
  "parser \<Rightarrow> sourceFile \<Rightarrow> string \<Rightarrow> (string \<rightharpoonup> PacketInfo list) \<Rightarrow> (string \<rightharpoonup> PacketInfo list)" where
  "addPacketFile parseInt file relPath result =
     (case parsePacketFile parseInt file relPath of
        None \<Rightarrow> result
      | Some packet \<Rightarrow>
          (let category = categoryOf ''uncategorized'' relPath;
               result1 = (if result category = None then result(category \<mapsto> []) else result)
           in result1(category \<mapsto> the (result1 category) @ [packet])))"

definition parsePacketDirectory ::
  "string \<Rightarrow> parser \<Rightarrow> entry list \<Rightarrow> string \<Rightarrow> (string \<rightharpoonup> PacketInfo list) \<Rightarrow> (string \<rightharpoonup> PacketInfo list)" where
  "parsePacketDirectory sep parseInt entries relPath result =
     walkEntries sep (\<lambda>name. False) (addPacketFile parseInt) entries relPath result"

subsection \<open>The whole run\<close>

record ParsedResults =
  packetsByCategory :: "string \<rightharpoonup> PacketInfo list"
  pr_enums :: "string \<rightharpoonup> EnumInfo"
  pr_dataClasses :: "string \<rightharpoonup> DataClassInfo"

text \<open>
  The listing of \<^verbatim>\<open>join(protocolDir, 'packets')\<close>; \<^verbatim>\<open>readdirSync\<close> throws when
  the protocol directory has no sub-directory of that name.
\<close>

datatype ioError = NoPacketsDirectory

fun packetsDir :: "entry list \<Rightarrow> entry list option" where
  "packetsDir [] = None"
| "packetsDir (DirEntry name sub # es) = (if name = ''packets'' then Some sub else packetsDir es)"
| "packetsDir (FileEntry name file # es) = (if name = ''packets'' then None else packetsDir es)"

text \<open>
  \<^verbatim>\<open>parseAll\<close> on the listing of the protocol directory: the entities, then the
  packets, then the enums of the packets directory.
\<close>

definition parseProtocolEntities :: "string \<Rightarrow> parser \<Rightarrow> entry list \<Rightarrow> parserState" where
  "parseProtocolEntities sep parseInt protocolDir =
     parseEntityDirectory sep parseInt protocolDir [] \<lparr>enums = Map.empty, dataClasses = Map.empty\<rparr>"

definition parseAll :: "string \<Rightarrow> parser \<Rightarrow> entry list \<Rightarrow> ioError + ParsedResults" where
  "parseAll sep parseInt protocolDir =
     (let st1 = parseProtocolEntities sep parseInt protocolDir in
      case packetsDir protocolDir of
        None \<Rightarrow> Inl NoPacketsDirectory
      | Some packets \<Rightarrow>
          (let byCategory = parsePacketDirectory sep parseInt packets [] Map.empty;
               st2 = parseEnumsFromPacketsDirectory sep parseInt packets [] st1
           in Inr \<lparr>packetsByCategory = byCategory, pr_enums = enums st2,
                  pr_dataClasses = dataClasses st2\<rparr>))"

section \<open>Layout analysis\<close>

subsection \<open>Schema and internal types\<close>

text \<open>What the response schema admits: \<^verbatim>\<open>FieldLayoutSchema\<close>, \<^verbatim>\<open>NullBitMappingEntry\<close>
  and \<^verbatim>\<open>LayoutAnalysisSchema\<close>. A nullable property is an option.\<close>

record FieldLayoutOutput =
  fo_name :: string
  fo_wireOffset :: int
  fo_wireSize :: int
  fo_encoding :: string
  fo_isVariable :: bool
  fo_nullBit :: "int option"
  fo_notes :: "string option"

record NullBitMappingEntry =
  nb_bit :: string
  nb_fieldName :: string

record LayoutAnalysisOutput =
  lo_fields :: "FieldLayoutOutput list"
  lo_totalFixedSize :: int
  lo_hasVariableSection :: bool
  lo_variableSectionStart :: "int option"
  lo_nullBitMappings :: "NullBitMappingEntry list"
  lo_notes :: "string option"

text \<open>The internal types \<^verbatim>\<open>FieldLayoutInfo\<close> and \<^verbatim>\<open>LayoutAnalysis\<close>.\<close>

record FieldLayoutInfo =
  fl_name :: string
  fl_wireOffset :: "int option"
  fl_wireSize :: "int option"
  fl_encoding :: string
  fl_isVariable :: bool
  fl_nullBit :: "int option"
  fl_notes :: "string option"

record LayoutAnalysis =
  la_packetName :: string
  la_fields :: "FieldLayoutInfo list"
  la_totalFixedSize :: int
  la_hasVariableSection :: bool
  la_variableSectionStart :: "int option"
  la_nullBitMapping :: "(string \<rightharpoonup> string) option"
  la_notes :: "string option"

subsection \<open>The analyzer and the inference service\<close>

text \<open>
  The analyzer object. The constructor replaces a missing or zero concurrency limit by 5
  and a missing or empty model name by the default.
\<close>

record LayoutAnalyzer =
  an_model :: string
  an_systemPrompt :: string
  an_maxConcurrency :: int

definition newLayoutAnalyzer :: "string option \<Rightarrow> int option \<Rightarrow> string \<Rightarrow> LayoutAnalyzer" where
  "newLayoutAnalyzer model maxConcurrency systemPrompt =
     \<lparr>an_model = (case model of None \<Rightarrow> ''openai/gpt-4.1-nano''
                              | Some m \<Rightarrow> if m = [] then ''openai/gpt-4.1-nano'' else m),
      an_systemPrompt = systemPrompt,
      an_maxConcurrency = (case maxConcurrency of None \<Rightarrow> 5 | Some k \<Rightarrow> if k = 0 then 5 else k)\<rparr>"

text \<open>
  One call of \<^verbatim>\<open>generateText\<close> of the inference library: the requests that the
  library sends to the service during the call (the temperature is the constant 0.1), and
  how the call completes: with a thrown error, or with a result whose structured output is
  missing or conforms to the schema. The library with the service behind it is a
  parameter of the model.
\<close>

record request =
  rq_model :: string
  rq_system :: string
  rq_prompt :: string

datatype thrown = Thrown string

type_synonym inference = "request \<Rightarrow> request list \<times> (thrown + LayoutAnalysisOutput option)"

text \<open>
  The library is called without a \<^verbatim>\<open>maxRetries\<close> option, so its default holds: a
  request that fails with an error that the library takes for transient is sent again, up
  to two more times, and the last error is thrown; any other error is thrown at once. The
  library is not part of the repository: this is its documented behaviour, over a service
  that gives a reply to the \<open>n\<close>-th sending of a request.
\<close>

datatype reply =
    Retryable string
  | Fatal string
  | Completed "LayoutAnalysisOutput option"

type_synonym service = "request \<Rightarrow> nat \<Rightarrow> reply"

fun sendAttempts ::
  "service \<Rightarrow> request \<Rightarrow> nat \<Rightarrow> nat \<Rightarrow> request list \<times> (thrown + LayoutAnalysisOutput option)" where
  "sendAttempts sv rq attempt 0 =
     ([rq], case sv rq attempt of
              Retryable message \<Rightarrow> Inl (Thrown message)
            | Fatal message \<Rightarrow> Inl (Thrown message)
            | Completed out \<Rightarrow> Inr out)"
| "sendAttempts sv rq attempt (Suc retries) =
     (case sv rq attempt of
        Retryable message \<Rightarrow>
          (let later = sendAttempts sv rq (Suc attempt) retries in (rq # fst later, snd later))
      | Fatal message \<Rightarrow> ([rq], Inl (Thrown message))
      | Completed out \<Rightarrow> ([rq], Inr out))"

definition generateTextLibrary :: "service \<Rightarrow> inference" where
  "generateTextLibrary sv rq = sendAttempts sv rq 0 2"

text \<open>\<^verbatim>\<open>try { body } catch (error) { handler }\<close>\<close>

definition tryCatch :: "thrown + 'a \<Rightarrow> (thrown \<Rightarrow> thrown + 'a) \<Rightarrow> thrown + 'a" where
  "tryCatch body handler = (case body of Inl error \<Rightarrow> handler error | Inr v \<Rightarrow> Inr v)"

subsection \<open>One packet\<close>

definition normalizeField :: "FieldLayoutOutput \<Rightarrow> FieldLayoutInfo" where
  "normalizeField field =
     \<lparr>fl_name = fo_name field, fl_wireOffset = Some (fo_wireOffset field),
      fl_wireSize = Some (fo_wireSize field), fl_encoding = fo_encoding field,
      fl_isVariable = fo_isVariable field, fl_nullBit = fo_nullBit field,
      fl_notes = fo_notes field\<rparr>"

text \<open>
  \<^verbatim>\<open>nullBitMapping[entry.bit] = entry.fieldName\<close> on a plain object: the assignment of
  a string to the key \<^verbatim>\<open>__proto__\<close> stores nothing.
\<close>

definition assignEntry :: "NullBitMappingEntry \<Rightarrow> (string \<rightharpoonup> string) \<Rightarrow> (string \<rightharpoonup> string)" where
  "assignEntry entry m =
     (if nb_bit entry = ''__proto__'' then m else m(nb_bit entry \<mapsto> nb_fieldName entry))"

definition normalizeLayout :: "LayoutAnalysisOutput \<Rightarrow> PacketInfo \<Rightarrow> LayoutAnalysis" where
  "normalizeLayout parsed packet =
     \<lparr>la_packetName = pk_name packet,
      la_fields = map normalizeField (lo_fields parsed),
      la_totalFixedSize = lo_totalFixedSize parsed,
      la_hasVariableSection = lo_hasVariableSection parsed,
      la_variableSectionStart = lo_variableSectionStart parsed,
      la_nullBitMapping =
        (if length (lo_nullBitMappings parsed) > 0
         then Some (fold assignEntry (lo_nullBitMappings parsed) Map.empty)
         else None),
      la_notes = lo_notes parsed\<rparr>"

text \<open>\<^verbatim>\<open>packet.deserializeContext\<close> is truthy: present and not the empty string.\<close>

definition hasContext :: "PacketInfo \<Rightarrow> bool" where
  "hasContext packet =
     (case pk_deserializeContext packet of None \<Rightarrow> False | Some ctx \<Rightarrow> ctx \<noteq> [])"

definition requestFor :: "LayoutAnalyzer \<Rightarrow> PacketInfo \<Rightarrow> request" where
  "requestFor an packet =
     \<lparr>rq_model = an_model an, rq_system = an_systemPrompt an,
      rq_prompt = (case pk_deserializeContext packet of None \<Rightarrow> [] | Some ctx \<Rightarrow> ctx)\<rparr>"

text \<open>
  \<^verbatim>\<open>analyzePacket\<close>: the requests sent during its one call of the library, none when
  it makes no call, and how it completes: with a thrown error (\<open>Inl\<close>) or with a layout
  or \<^verbatim>\<open>null\<close> (\<open>Inr\<close>).
\<close>

definition analyzePacket ::
  "LayoutAnalyzer \<Rightarrow> inference \<Rightarrow> PacketInfo \<Rightarrow> request list \<times> (thrown + LayoutAnalysis option)" where
  "analyzePacket an generateText packet =
     (if \<not> hasContext packet then ([], Inr None)
      else
        (let call = generateText (requestFor an packet)
         in (fst call,
             tryCatch
               (case snd call of
                  Inl error \<Rightarrow> Inl error
                | Inr None \<Rightarrow> Inr None
                | Inr (Some output) \<Rightarrow> Inr (Some (normalizeLayout output packet)))
               (\<lambda>error. Inr None))))"

subsection \<open>The batch\<close>

text \<open>\<^verbatim>\<open>await Promise.all(promises)\<close>: all the values, or a thrown error if one rejects.\<close>

fun promiseAll :: "(thrown + 'a) list \<Rightarrow> thrown + 'a list" where
  "promiseAll [] = Inr []"
| "promiseAll (Inl error # rs) = Inl error"
| "promiseAll (Inr v # rs) = (case promiseAll rs of Inl error \<Rightarrow> Inl error | Inr vs \<Rightarrow> Inr (v # vs))"

text \<open>The loop over \<^verbatim>\<open>batchResults\<close> that fills the map.\<close>

definition storeResult ::
  "string \<times> LayoutAnalysis option \<Rightarrow> (string \<rightharpoonup> LayoutAnalysis) \<Rightarrow> (string \<rightharpoonup> LayoutAnalysis)" where
  "storeResult nl results =
     (case snd nl of None \<Rightarrow> results | Some layout \<Rightarrow> results(fst nl \<mapsto> layout))"

text \<open>
  The \<^verbatim>\<open>while\<close> loop of \<^verbatim>\<open>analyzePackets\<close>. \<^verbatim>\<open>queue.splice(0, k)\<close> removes
  the first \<open>k\<close> packets, none for a negative \<open>k\<close>. Beside the map, the state holds
  what was sent so far: one group per round of the loop, and in a group the requests of
  each of its concurrent calls of \<^verbatim>\<open>analyzePacket\<close>. The loop need not end: the value
  is \<open>None\<close> when it does not.
\<close>

partial_function (option) analyzeLoop ::
  "LayoutAnalyzer \<Rightarrow> inference \<Rightarrow> PacketInfo list \<Rightarrow> (string \<rightharpoonup> LayoutAnalysis)
     \<Rightarrow> request list list list
     \<Rightarrow> (request list list list \<times> (thrown + (string \<rightharpoonup> LayoutAnalysis))) option" where
  "analyzeLoop an generateText queue results groups =
     (if length queue > 0 then
        (let k = nat (an_maxConcurrency an);
             batch = take k queue;
             outcomes = map (analyzePacket an generateText) batch;
             groups1 = groups @ [map fst outcomes]
         in case promiseAll (map snd outcomes) of
              Inl error \<Rightarrow> Some (groups1, Inl error)
            | Inr layouts \<Rightarrow>
                analyzeLoop an generateText (drop k queue)
                  (fold storeResult (zip (map pk_name batch) layouts) results) groups1)
      else Some (groups, Inr results))"

definition analyzePackets ::
  "LayoutAnalyzer \<Rightarrow> inference \<Rightarrow> PacketInfo list
     \<Rightarrow> (request list list list \<times> (thrown + (string \<rightharpoonup> LayoutAnalysis))) option" where
  "analyzePackets an generateText packets =
     analyzeLoop an generateText (filter hasContext packets) Map.empty []"

section \<open>Notions used to state the properties\<close>

subsection \<open>Enumerations\<close>








subsection \<open>Layout constants\<close>

text \<open>
  The name and the initialiser text of a declaration that \<open>extractConstants\<close>
  considers: a \<^verbatim>\<open>field_declaration\<close> whose modifiers mention \<^verbatim>\<open>static\<close> and
  \<^verbatim>\<open>final\<close>, read from its first declarator, both texts non-empty.
\<close>

definition staticFinalDecl :: "node \<Rightarrow> (string \<times> string) option" where
  "staticFinalDecl c =
     (if ntype c = ''field_declaration'' \<and> includesStr (modifiersText c) ''static''
         \<and> includesStr (modifiersText c) ''final''
      then
        (case findChildOfType c ''variable_declarator'' of
           None \<Rightarrow> None
         | Some d \<Rightarrow>
             (let name = getNodeText (childForFieldName d ''name'');
                  value = getNodeText (childForFieldName d ''value'')
              in if name \<noteq> [] \<and> value \<noteq> [] then Some (name, value) else None))
      else None)"

text \<open>These declarations of a class, in traversal order; none without a body.\<close>

definition constantDecls :: "node \<Rightarrow> (string \<times> string) list" where
  "constantDecls n =
     (case childForFieldName n ''body'' of
        None \<Rightarrow> []
      | Some body \<Rightarrow> List.map_filter staticFinalDecl (preorder body))"

text \<open>The initialiser text of the last declaration named \<open>nm\<close>.\<close>

definition lastValue :: "string \<Rightarrow> (string \<times> string) list \<Rightarrow> string option" where
  "lastValue nm ds = map_option snd (find (\<lambda>d. fst d = nm) (rev ds))"

text \<open>The number of the last declaration named \<open>nm\<close> whose initialiser parses.\<close>

definition lastParsed :: "parser \<Rightarrow> string \<Rightarrow> (string \<times> string) list \<Rightarrow> int option" where
  "lastParsed parseInt nm ds =
     (case find (\<lambda>d. fst d = nm \<and> parseInt (snd d) \<noteq> None) (rev ds) of
        None \<Rightarrow> None
      | Some d \<Rightarrow> parseInt (snd d))"

definition orZero :: "int option \<Rightarrow> int" where
  "orZero v = (case v of None \<Rightarrow> 0 | Some i \<Rightarrow> i)"

text \<open>What one such declaration does to the packet.\<close>

definition applyConst :: "parser \<Rightarrow> string \<times> string \<Rightarrow> PacketInfo \<Rightarrow> PacketInfo" where
  "applyConst P d packet =
     (if fst d = ''IS_COMPRESSED'' then packet\<lparr>pk_isCompressed := (snd d = ''true'')\<rparr>
      else
        (case P (snd d) of
           None \<Rightarrow> packet
         | Some numValue \<Rightarrow>
             if fst d = ''PACKET_ID'' then packet\<lparr>pk_packetId := Some numValue\<rparr>
             else if fst d = ''NULLABLE_BIT_FIELD_SIZE'' then
               packet\<lparr>pk_nullableBitFieldSize := numValue\<rparr>
             else if fst d = ''FIXED_BLOCK_SIZE'' then packet\<lparr>pk_fixedBlockSize := numValue\<rparr>
             else if fst d = ''VARIABLE_FIELD_COUNT'' then
               packet\<lparr>pk_variableFieldCount := numValue\<rparr>
             else if fst d = ''VARIABLE_BLOCK_START'' then
               packet\<lparr>pk_variableBlockStart := numValue\<rparr>
             else if fst d = ''MAX_SIZE'' then packet\<lparr>pk_maxSize := numValue\<rparr>
             else packet))"

text \<open>The seven layout constants of a packet.\<close>

definition constantsOf :: "PacketInfo \<Rightarrow> int option \<times> bool \<times> int \<times> int \<times> int \<times> int \<times> int" where
  "constantsOf p =
     (pk_packetId p, pk_isCompressed p, pk_nullableBitFieldSize p, pk_fixedBlockSize p,
      pk_variableFieldCount p, pk_variableBlockStart p, pk_maxSize p)"

subsection \<open>Constructors and fields\<close>

text \<open>
  The parameter count of a constructor as \<open>ctorCallback\<close> takes it: the named children
  of its parameter list that are formal or spread (varargs) parameters.
\<close>

definition paramCount :: "node \<Rightarrow> nat" where
  "paramCount c =
     (case childForFieldName c ''parameters'' of
        None \<Rightarrow> 0
      | Some params \<Rightarrow>
          length (filter (\<lambda>p. ntype p = ''formal_parameter'' \<or> ntype p = ''spread_parameter'')
                    (namedChildren params)))"

text \<open>
  A copy constructor: one parameter, a formal one, whose type text is the name of the
  nearest enclosing class declaration. \<open>anc\<close> is the chain of ancestors of \<open>c\<close>.
\<close>

definition isCopyConstructor :: "node list \<Rightarrow> node \<Rightarrow> bool" where
  "isCopyConstructor anc c =
     (case childForFieldName c ''parameters'' of
        None \<Rightarrow> False
      | Some params \<Rightarrow>
          paramCount c = 1 \<and>
          (case find (\<lambda>p. ntype p = ''formal_parameter'') (namedChildren params) of
             None \<Rightarrow> False
           | Some firstParam \<Rightarrow>
               (case findParentClass anc of
                  None \<Rightarrow> False
                | Some parentClass \<Rightarrow>
                    getNodeText (childForFieldName firstParam ''type'') =
                    getNodeText (childForFieldName parentClass ''name''))))"

text \<open>The constructors that compete: those with a parameter list that are no copy constructors.\<close>

definition qualifies :: "node list \<times> node \<Rightarrow> bool" where
  "qualifies ac =
     (ntype (snd ac) = ''constructor_declaration''
      \<and> childForFieldName (snd ac) ''parameters'' \<noteq> None
      \<and> \<not> isCopyConstructor (fst ac) (snd ac))"

definition candidates :: "node list \<Rightarrow> node \<Rightarrow> node list" where
  "candidates anc body = map snd (filter qualifies (preorderP anc body))"

text \<open>The largest parameter count among the nodes \<open>cs\<close>, and \<open>m\<close> if none exceeds it.\<close>

definition maxParamCount :: "nat \<Rightarrow> node list \<Rightarrow> nat" where
  "maxParamCount m cs = fold max (map paramCount cs) m"

text \<open>
  The constructor with the maximum parameter count, the first one in traversal order
  among equals; none if no competing constructor has a parameter.
\<close>

definition chosenConstructor :: "node list \<Rightarrow> node \<Rightarrow> node option" where
  "chosenConstructor anc body =
     (let cs = candidates anc body; m = maxParamCount 0 cs
      in if m = 0 then None else find (\<lambda>c. paramCount c = m) cs)"

text \<open>
  The fields read off a constructor: one per formal parameter that has a type and a name,
  in order. Spread parameters and other named children of the list give none.
\<close>

definition parameterFields :: "node \<Rightarrow> FieldInfo list" where
  "parameterFields c =
     (case childForFieldName c ''parameters'' of
        None \<Rightarrow> []
      | Some params \<Rightarrow> concat (map paramField (namedChildren params)))"

definition constructorFieldsOf :: "node list \<Rightarrow> node \<Rightarrow> FieldInfo list" where
  "constructorFieldsOf anc body =
     (case chosenConstructor anc body of None \<Rightarrow> [] | Some c \<Rightarrow> parameterFields c)"

text \<open>
  The fields read off the declarations of a class body: the field declarations whose
  modifiers do not mention \<^verbatim>\<open>static\<close>, in traversal order, as far as
  \<open>extractFieldInfo\<close> accepts them.
\<close>

definition declaredFields :: "node \<Rightarrow> FieldInfo list" where
  "declaredFields body =
     List.map_filter extractFieldInfo
       (filter (\<lambda>c. ntype c = ''field_declaration'' \<and> \<not> includesStr (modifiersText c) ''static'')
          (preorder body))"

subsection \<open>Packet files\<close>

text \<open>
  A class declaration with a non-empty name, as \<open>packetCallback\<close> asks for.
\<close>

definition isNamedClass :: "node list \<times> node \<Rightarrow> bool" where
  "isNamedClass ac =
     (ntype (snd ac) = ''class_declaration''
      \<and> getNodeText (childForFieldName (snd ac) ''name'') \<noteq> [])"

text \<open>
  The last class declaration that the traversal of a tree visits, with the chain of its
  ancestors.
\<close>

definition lastClass :: "node \<Rightarrow> (node list \<times> node) option" where
  "lastClass rootNode =
     find (\<lambda>ac. ntype (snd ac) = ''class_declaration'') (rev (preorderP [] rootNode))"

text \<open>
  In the grammar the name of a class declaration is a required token, so in a tree that
  the parser returns every class declaration has a name of non-empty text.
\<close>

definition classesNamed :: "node \<Rightarrow> bool" where
  "classesNamed rootNode =
     list_all
       (\<lambda>n. ntype n = ''class_declaration'' \<longrightarrow> getNodeText (childForFieldName n ''name'') \<noteq> [])
       (preorder rootNode)"

subsection \<open>Directories and categories\<close>

text \<open>
  The relative path that the walk has built when it has descended through the
  directories \<open>dirs\<close>, outermost first.
\<close>

definition relPathOf :: "string \<Rightarrow> string list \<Rightarrow> string" where
  "relPathOf sep dirs = fold (\<lambda>d r. pathJoin sep r d) dirs []"

text \<open>
  The \<^verbatim>\<open>.java\<close> files below a listing that a walk reaches, in order, each with the
  chain of directories that leads to it; \<open>dirs\<close> is the chain of the listing itself.
\<close>

fun javaFilesE :: "(string \<Rightarrow> bool) \<Rightarrow> entry \<Rightarrow> string list \<Rightarrow> (string list \<times> sourceFile) list"
  and javaFilesL :: "(string \<Rightarrow> bool) \<Rightarrow> entry list \<Rightarrow> string list \<Rightarrow> (string list \<times> sourceFile) list"
  where
  "javaFilesE skip (DirEntry name sub) dirs =
     (if skip name then [] else javaFilesL skip sub (dirs @ [name]))"
| "javaFilesE skip (FileEntry name src) dirs =
     (if endsWith name ''.java'' then [(dirs, src)] else [])"
| "javaFilesL skip [] dirs = []"
| "javaFilesL skip (e # es) dirs = javaFilesE skip e dirs @ javaFilesL skip es dirs"

definition entityFiles :: "entry list \<Rightarrow> (string list \<times> sourceFile) list" where
  "entityFiles protocolDir = javaFilesL (\<lambda>name. name = ''packets'') protocolDir []"

definition packetFiles :: "entry list \<Rightarrow> (string list \<times> sourceFile) list" where
  "packetFiles packets = javaFilesL (\<lambda>name. False) packets []"

text \<open>
  The enums and the data classes that the declarations of one file give, for the relative
  path \<open>relPath\<close> of its directory.
\<close>

definition fileEnums :: "parser \<Rightarrow> sourceFile \<Rightarrow> string \<Rightarrow> EnumInfo list" where
  "fileEnums parseInt src relPath =
     (case (sf_content src, sf_tree src) of
        (Some content, Some rootNode) \<Rightarrow>
          List.map_filter
            (\<lambda>n. if ntype n = ''enum_declaration''
                 then extractEnumInfo parseInt n content (categoryOf ''root'' relPath) relPath
                 else None)
            (preorder rootNode)
      | _ \<Rightarrow> [])"

definition fileDataClasses :: "sourceFile \<Rightarrow> string \<Rightarrow> DataClassInfo list" where
  "fileDataClasses src relPath =
     (case (sf_content src, sf_tree src) of
        (Some content, Some rootNode) \<Rightarrow>
          List.map_filter
            (\<lambda>n. if ntype n = ''class_declaration''
                 then extractDataClassInfo n content (categoryOf ''root'' relPath) relPath
                 else None)
            (preorder rootNode)
      | _ \<Rightarrow> [])"

text \<open>Lower case, for the letters of ASCII.\<close>

definition toLowerCase :: "string \<Rightarrow> string" where
  "toLowerCase s =
     map (\<lambda>c. case map_of (zip ''ABCDEFGHIJKLMNOPQRSTUVWXYZ'' ''abcdefghijklmnopqrstuvwxyz'') c of
                None \<Rightarrow> c | Some l \<Rightarrow> l) s"

subsection \<open>Batches\<close>

text \<open>
  A queue cut into consecutive groups of \<open>k\<close>, the last one possibly shorter.
\<close>

function chunks :: "nat \<Rightarrow> 'a list \<Rightarrow> 'a list list" where
  "chunks k xs = (if k = 0 \<or> xs = [] then [] else take k xs # chunks k (drop k xs))"
  by pat_completeness auto
termination
  by (relation "measure (\<lambda>(k, xs). length xs)") auto

declare chunks.simps [simp del]

text \<open>
  The layout that \<open>analyzePacket\<close> completes with, if any, and the successful
  name-layout pairs of a list of packets, in order.
\<close>

definition layoutOf :: "LayoutAnalyzer \<Rightarrow> inference \<Rightarrow> PacketInfo \<Rightarrow> LayoutAnalysis option" where
  "layoutOf an generateText p =
     (case snd (analyzePacket an generateText p) of Inl error \<Rightarrow> None | Inr layout \<Rightarrow> layout)"

definition successes ::
  "LayoutAnalyzer \<Rightarrow> inference \<Rightarrow> PacketInfo list \<Rightarrow> (string \<times> LayoutAnalysis) list" where
  "successes an generateText ps =
     List.map_filter (\<lambda>p. map_option (\<lambda>layout. (pk_name p, layout)) (layoutOf an generateText p)) ps"

text \<open>The groups and the map that a finished run returned, for reading a result.\<close>

definition groupsOf ::
  "(request list list list \<times> (thrown + (string \<rightharpoonup> LayoutAnalysis))) option
     \<Rightarrow> request list list list" where
  "groupsOf r = (case r of None \<Rightarrow> [] | Some gr \<Rightarrow> fst gr)"

definition resultsOf ::
  "(request list list list \<times> (thrown + (string \<rightharpoonup> LayoutAnalysis))) option
     \<Rightarrow> (string \<rightharpoonup> LayoutAnalysis)" where
  "resultsOf r =
     (case r of
        None \<Rightarrow> Map.empty
      | Some gr \<Rightarrow> (case snd gr of Inl error \<Rightarrow> Map.empty | Inr results \<Rightarrow> results))"

text \<open>The powers of two: 1, 2, 4, 8, ...\<close>

definition isPowerOfTwo :: "int \<Rightarrow> bool" where
  "isPowerOfTwo n = (n \<in> set (map (\<lambda>k. 2 ^ k) [0..<nat n]))"

section \<open>Example sources\<close>

text \<open>A named leaf, and an anonymous token such as a brace or a keyword.\<close>

definition leaf :: "string \<Rightarrow> string \<Rightarrow> string option \<Rightarrow> node" where
  "leaf t x f = Node t x True f []"

definition token :: "string \<Rightarrow> node" where
  "token x = Node x x False None []"

text \<open>The tree of \<^verbatim>\<open>enum Color { RED(5), GREEN, BLUE(x) }\<close>.\<close>

definition ex_red :: node where
  "ex_red = Node ''enum_constant'' ''RED(5)'' True None
     [leaf ''identifier'' ''RED'' (Some ''name''),
      Node ''argument_list'' ''(5)'' True (Some ''arguments'')
        [token ''('', leaf ''decimal_integer_literal'' ''5'' None, token '')'']]"

definition ex_green :: node where
  "ex_green = Node ''enum_constant'' ''GREEN'' True None [leaf ''identifier'' ''GREEN'' (Some ''name'')]"

definition ex_blue :: node where
  "ex_blue = Node ''enum_constant'' ''BLUE(x)'' True None
     [leaf ''identifier'' ''BLUE'' (Some ''name''),
      Node ''argument_list'' ''(x)'' True (Some ''arguments'')
        [token ''('', leaf ''identifier'' ''x'' None, token '')'']]"

definition ex_enumBody :: node where
  "ex_enumBody = Node ''enum_body'' ''{ RED(5), GREEN, BLUE(x) }'' True (Some ''body'')
     [token ''{'', ex_red, token '','', ex_green, token '','', ex_blue, token ''}'']"

definition ex_enum :: node where
  "ex_enum = Node ''enum_declaration'' ''enum Color { RED(5), GREEN, BLUE(x) }'' True None
     [token ''enum'', leaf ''identifier'' ''Color'' (Some ''name''), ex_enumBody]"





text \<open>
  The tree of \<^verbatim>\<open>class Ping { }\<close>, and of a field declaration
  \<^verbatim>\<open>public static final int NAME = VALUE;\<close>.
\<close>

definition ex_emptyClass :: node where
  "ex_emptyClass = Node ''class_declaration'' ''class Ping { }'' True None
     [token ''class'', leaf ''identifier'' ''Ping'' (Some ''name''),
      Node ''class_body'' ''{ }'' True (Some ''body'') [token ''{'', token ''}'']]"

definition ex_constant :: "string \<Rightarrow> string \<Rightarrow> string \<Rightarrow> node" where
  "ex_constant ty name value =
     Node ''field_declaration'' (''public static final '' @ ty @ '' '' @ name @ '' = '' @ value @ '';'')
       True None
       [Node ''modifiers'' ''public static final'' True None
          [token ''public'', token ''static'', token ''final''],
        leaf ''integral_type'' ty (Some ''type''),
        Node ''variable_declarator'' (name @ '' = '' @ value) True (Some ''declarator'')
          [leaf ''identifier'' name (Some ''name''), token ''='',
           leaf ''decimal_integer_literal'' value (Some ''value'')],
        token '';'']"

text \<open>
  A class with \<^verbatim>\<open>PACKET_ID = 3\<close>, \<^verbatim>\<open>IS_COMPRESSED = true\<close>,
  \<^verbatim>\<open>FIXED_BLOCK_SIZE = 9\<close> and \<^verbatim>\<open>MAX_SIZE = big\<close>.
\<close>

definition ex_constClass :: node where
  "ex_constClass = Node ''class_declaration'' ''class Pong { ... }'' True None
     [token ''class'', leaf ''identifier'' ''Pong'' (Some ''name''),
      Node ''class_body'' ''{ ... }'' True (Some ''body'')
        [token ''{'', ex_constant ''int'' ''PACKET_ID'' ''3'',
         ex_constant ''boolean'' ''IS_COMPRESSED'' ''true'',
         ex_constant ''int'' ''FIXED_BLOCK_SIZE'' ''9'',
         ex_constant ''int'' ''MAX_SIZE'' ''big'', token ''}'']]"

text \<open>
  Building blocks: a field declaration \<^verbatim>\<open>MODS TYPE NAME;\<close>, a formal parameter
  \<^verbatim>\<open>MODS TYPE NAME\<close> (both without a modifiers node when \<open>mods\<close> is empty), and a
  constructor \<^verbatim>\<open>CLS(PARAMS) { }\<close> whose parameter list has the children \<open>ps\<close>.
\<close>

definition ex_modifiers :: "string \<Rightarrow> node list" where
  "ex_modifiers mods =
     (if mods = [] then []
      else [Node ''modifiers'' mods True None [leaf ''marker_annotation'' mods None]])"

definition ex_field :: "string \<Rightarrow> string \<Rightarrow> string \<Rightarrow> node" where
  "ex_field mods ty name =
     Node ''field_declaration'' (mods @ '' '' @ ty @ '' '' @ name @ '';'') True None
       (ex_modifiers mods @
        [leaf ''type_identifier'' ty (Some ''type''),
         Node ''variable_declarator'' name True (Some ''declarator'')
           [leaf ''identifier'' name (Some ''name'')],
         token '';''])"

definition ex_param :: "string \<Rightarrow> string \<Rightarrow> string \<Rightarrow> node" where
  "ex_param mods ty name =
     Node ''formal_parameter'' (mods @ '' '' @ ty @ '' '' @ name) True None
       (ex_modifiers mods @
        [leaf ''type_identifier'' ty (Some ''type''), leaf ''identifier'' name (Some ''name'')])"

definition ex_ctor :: "string \<Rightarrow> string \<Rightarrow> node list \<Rightarrow> node" where
  "ex_ctor cls txt ps =
     Node ''constructor_declaration'' (cls @ txt @ '' { }'') True None
       [leaf ''identifier'' cls (Some ''name''),
        Node ''formal_parameters'' txt True (Some ''parameters'') ps,
        Node ''constructor_body'' ''{ }'' True (Some ''body'') [token ''{'', token ''}'']]"

text \<open>
  A class whose fields are declared in the order \<^verbatim>\<open>name\<close>, \<^verbatim>\<open>id\<close> and which has
  an empty constructor, a copy constructor and the full constructor
  \<^verbatim>\<open>Login(int id, @Nullable String name)\<close>.
\<close>

definition ex_loginFull :: node where
  "ex_loginFull = ex_ctor ''Login'' ''(int id, @Nullable String name)''
     [token ''('', ex_param [] ''int'' ''id'', token '','',
      ex_param ''@Nullable'' ''String'' ''name'', token '')'']"

definition ex_loginBody :: node where
  "ex_loginBody = Node ''class_body'' ''{ ... }'' True (Some ''body'')
     [token ''{'',
      ex_field ''@Nullable'' ''String'' ''name'',
      ex_field [] ''int'' ''id'',
      ex_ctor ''Login'' ''()'' [token ''('', token '')''],
      ex_ctor ''Login'' ''(Login other)'' [token ''('', ex_param [] ''Login'' ''other'', token '')''],
      ex_loginFull,
      token ''}'']"

definition ex_loginClass :: node where
  "ex_loginClass = Node ''class_declaration'' ''class Login { ... }'' True None
     [token ''class'', leaf ''identifier'' ''Login'' (Some ''name''), ex_loginBody]"

text \<open>
  A class whose only constructor is \<^verbatim>\<open>Chat(int a, String... rest)\<close>; the second
  parameter is a spread parameter.
\<close>

definition ex_chatCtor :: node where
  "ex_chatCtor = ex_ctor ''Chat'' ''(int a, String... rest)''
     [token ''('', ex_param [] ''int'' ''a'', token '','',
      Node ''spread_parameter'' ''String... rest'' True None
        [leaf ''type_identifier'' ''String'' None, token ''...'',
         Node ''variable_declarator'' ''rest'' True None
           [leaf ''identifier'' ''rest'' (Some ''name'')]],
      token '')'']"

definition ex_chatBody :: node where
  "ex_chatBody = Node ''class_body'' ''{ ... }'' True (Some ''body'')
     [token ''{'', ex_chatCtor, token ''}'']"

definition ex_chatClass :: node where
  "ex_chatClass = Node ''class_declaration'' ''class Chat { ... }'' True None
     [token ''class'', leaf ''identifier'' ''Chat'' (Some ''name''), ex_chatBody]"

text \<open>The file \<^verbatim>\<open>class Outer { class Inner { } }\<close>.\<close>

definition ex_innerClass :: node where
  "ex_innerClass = Node ''class_declaration'' ''class Inner { }'' True None
     [token ''class'', leaf ''identifier'' ''Inner'' (Some ''name''),
      Node ''class_body'' ''{ }'' True (Some ''body'') [token ''{'', token ''}'']]"

definition ex_outerClass :: node where
  "ex_outerClass = Node ''class_declaration'' ''class Outer { class Inner { } }'' True None
     [token ''class'', leaf ''identifier'' ''Outer'' (Some ''name''),
      Node ''class_body'' ''{ class Inner { } }'' True (Some ''body'')
        [token ''{'', ex_innerClass, token ''}'']]"

definition ex_nestedRoot :: node where
  "ex_nestedRoot = Node ''program'' ''class Outer { class Inner { } }'' True None [ex_outerClass]"

definition ex_nestedFile :: sourceFile where
  "ex_nestedFile =
     \<lparr>sf_content = Some ''class Outer { class Inner { } }'', sf_tree = Some ex_nestedRoot\<rparr>"

text \<open>
  A packets directory holding \<^verbatim>\<open>Color.java\<close> with the enum above and, in the
  sub-directory \<^verbatim>\<open>Auth\<close>, \<^verbatim>\<open>Login.java\<close> with the class above.
\<close>

definition ex_colorFile :: sourceFile where
  "ex_colorFile =
     \<lparr>sf_content = Some ''package p; enum Color { RED(5), GREEN, BLUE(x) }'',
      sf_tree = Some (Node ''program'' ''package p; enum Color { RED(5), GREEN, BLUE(x) }'' True None
                        [ex_enum])\<rparr>"

definition ex_loginFile :: sourceFile where
  "ex_loginFile =
     \<lparr>sf_content = Some ''package p; class Login { ... }'',
      sf_tree = Some (Node ''program'' ''package p; class Login { ... }'' True None
                        [ex_loginClass])\<rparr>"

definition ex_packets :: "entry list" where
  "ex_packets =
     [FileEntry ''Color.java'' ex_colorFile,
      DirEntry ''Auth'' [FileEntry ''Login.java'' ex_loginFile, FileEntry ''notes.txt'' ex_loginFile]]"

text \<open>A state in which an enum named \<^verbatim>\<open>Color\<close> is registered already.\<close>

definition ex_sharedColor :: EnumInfo where
  "ex_sharedColor =
     \<lparr>en_name = ''Color'', en_package = ''shared'', en_category = ''root'', en_sourcePath = [],
      en_values = [\<lparr>ev_name = ''RED'', ev_value = 0\<rparr>]\<rparr>"

definition ex_state :: parserState where
  "ex_state = \<lparr>enums = [''Color'' \<mapsto> ex_sharedColor], dataClasses = Map.empty\<rparr>"

text \<open>
  A protocol directory: \<^verbatim>\<open>Types/Login.java\<close> and \<^verbatim>\<open>Types/Color.java\<close> beside the
  packets directory above.
\<close>

definition ex_protocolDir :: "entry list" where
  "ex_protocolDir =
     [DirEntry ''Types'' [FileEntry ''Login.java'' ex_loginFile, FileEntry ''Color.java'' ex_colorFile],
      DirEntry ''packets'' ex_packets]"

text \<open>
  An analyzer with the concurrency limit 2, and the library over a service that answers
  the prompt \<^verbatim>\<open>read A\<close> with a layout of two fields that both carry the bit value 3,
  fails on \<^verbatim>\<open>read B\<close> with a transient error every time, and gives no structured output
  otherwise.
\<close>

definition ex_analyzer :: LayoutAnalyzer where
  "ex_analyzer = newLayoutAnalyzer None (Some 2) ''You are a binary protocol analyst.''"

definition ex_fieldOutput :: "string \<Rightarrow> int option \<Rightarrow> FieldLayoutOutput" where
  "ex_fieldOutput name nullBit =
     \<lparr>fo_name = name, fo_wireOffset = - 1, fo_wireSize = - 1, fo_encoding = ''varint'',
      fo_isVariable = True, fo_nullBit = nullBit, fo_notes = None\<rparr>"

definition ex_output :: LayoutAnalysisOutput where
  "ex_output =
     \<lparr>lo_fields = [ex_fieldOutput ''bogus'' (Some 3), ex_fieldOutput ''other'' (Some 3)],
      lo_totalFixedSize = 1, lo_hasVariableSection = True, lo_variableSectionStart = Some 1,
      lo_nullBitMappings = [\<lparr>nb_bit = ''3'', nb_fieldName = ''bogus''\<rparr>], lo_notes = None\<rparr>"

definition ex_service :: service where
  "ex_service rq n =
     (if rq_prompt rq = ''read A'' then Completed (Some ex_output)
      else if rq_prompt rq = ''read B'' then Retryable ''timeout''
      else Completed None)"

definition ex_generateText :: inference where
  "ex_generateText = generateTextLibrary ex_service"

text \<open>
  Four packets: \<^verbatim>\<open>A\<close> with the declared field \<^verbatim>\<open>id\<close>, \<^verbatim>\<open>B\<close> and \<^verbatim>\<open>D\<close> with
  a context, \<^verbatim>\<open>C\<close> without one.
\<close>

definition ex_packet :: "string \<Rightarrow> string option \<Rightarrow> string list \<Rightarrow> PacketInfo" where
  "ex_packet name ctx fieldNames =
     \<lparr>pk_name = name, pk_package = ''p'', pk_category = ''auth'', pk_packetId = None,
      pk_isCompressed = False, pk_nullableBitFieldSize = 0, pk_fixedBlockSize = 0,
      pk_variableFieldCount = 0, pk_variableBlockStart = 0, pk_maxSize = 0,
      pk_fields =
        map (\<lambda>n. \<lparr>fi_name = n, fi_javaType = ''int'', fi_nullable = False, fi_defaultValue = None,
                    fi_maxLength = None, fi_wireOffset = None, fi_wireSize = None,
                    fi_isVariable = False, fi_encoding = []\<rparr>) fieldNames,
      pk_imports = [], pk_isEnum = False, pk_isDataClass = False,
      pk_deserializeContext = ctx\<rparr>"

definition ex_packetA :: PacketInfo where
  "ex_packetA = ex_packet ''A'' (Some ''read A'') [''id'']"

definition ex_batch :: "PacketInfo list" where
  "ex_batch =
     [ex_packetA, ex_packet ''B'' (Some ''read B'') [], ex_packet ''C'' None [],
      ex_packet ''D'' (Some ''read D'') []]"

definition ex_packetB :: PacketInfo where
  "ex_packetB = ex_packet ''B'' (Some ''read B'') []"

section \<open>Properties\<close>

subsection \<open>Traversal\<close>

lemma fold_concat_aux: "fold f (concat xss) s = fold (fold f) xss s"
  by (induction xss arbitrary: s) simp_all

lemma traverseTree_preorder: "traverseTree n cb s = fold cb (preorder n) s"
proof (induction n arbitrary: s)
  case (Node t x nm f cs)
  have "fold (\<lambda>c. traverseTree c cb) cs s' = fold (\<lambda>c. fold cb (preorder c)) cs s'" for s'
    using Node.IH by (intro fold_cong) auto
  then show ?case by (simp add: fold_concat_aux fold_map comp_def)
qed

subsection \<open>Enumeration values\<close>















subsection \<open>Layout constants\<close>

lemma constCallback_applyConst:
  "constCallback P c packet =
     (case staticFinalDecl c of None \<Rightarrow> packet | Some d \<Rightarrow> applyConst P d packet)"
proof -
  have inner: "(if name = ''IS_COMPRESSED'' then packet\<lparr>pk_isCompressed := (value = ''true'')\<rparr>
       else
         (case P value of
            None \<Rightarrow> packet
          | Some numValue \<Rightarrow>
              if name = ''PACKET_ID'' then packet\<lparr>pk_packetId := Some numValue\<rparr>
              else if name = ''NULLABLE_BIT_FIELD_SIZE'' then
                packet\<lparr>pk_nullableBitFieldSize := numValue\<rparr>
              else if name = ''FIXED_BLOCK_SIZE'' then
                packet\<lparr>pk_fixedBlockSize := numValue\<rparr>
              else if name = ''VARIABLE_FIELD_COUNT'' then
                packet\<lparr>pk_variableFieldCount := numValue\<rparr>
              else if name = ''VARIABLE_BLOCK_START'' then
                packet\<lparr>pk_variableBlockStart := numValue\<rparr>
              else if name = ''MAX_SIZE'' then packet\<lparr>pk_maxSize := numValue\<rparr>
              else packet)) = applyConst P (name, value) packet" for name "value"
    unfolding applyConst_def fst_conv snd_conv ..
  show ?thesis
    unfolding constCallback_def staticFinalDecl_def Let_def inner
    by (simp split: option.splits)
qed

lemma fold_constCallback:
  "fold (constCallback P) xs packet = fold (applyConst P) (List.map_filter staticFinalDecl xs) packet"
  by (induction xs arbitrary: packet)
     (simp_all add: constCallback_applyConst List.map_filter_simps split: option.splits)

lemma extractConstants_fold:
  "extractConstants P n packet = fold (applyConst P) (constantDecls n) packet"
  by (simp add: extractConstants_def constantDecls_def traverseTree_preorder fold_constCallback
      split: option.splits)


lemma lastValue_snoc:
  "lastValue nm (ds @ [d]) = (if fst d = nm then Some (snd d) else lastValue nm ds)"
  by (simp add: lastValue_def)

lemma lastParsed_snoc:
  "lastParsed P nm (ds @ [d]) =
     (if fst d = nm \<and> P (snd d) \<noteq> None then P (snd d) else lastParsed P nm ds)"
  by (auto simp: lastParsed_def)

lemma fold_applyConst_isCompressed:
  "pk_isCompressed (fold (applyConst P) ds packet) =
     (case lastValue ''IS_COMPRESSED'' ds of
        None \<Rightarrow> pk_isCompressed packet
      | Some v \<Rightarrow> v = ''true'')"
proof (induction ds rule: rev_induct)
  case Nil
  show ?case by (simp add: lastValue_def)
next
  case (snoc d ds)
  then show ?case
    by (simp add: lastValue_snoc applyConst_def split: option.splits)
qed

lemma fold_applyConst_packetId:
  "pk_packetId (fold (applyConst P) ds packet) =
     (case lastParsed P ''PACKET_ID'' ds of None \<Rightarrow> pk_packetId packet | Some v \<Rightarrow> Some v)"
proof (induction ds rule: rev_induct)
  case Nil
  show ?case by (simp add: lastParsed_def)
next
  case (snoc d ds)
  then show ?case
    by (auto simp: lastParsed_snoc applyConst_def split: option.splits)
qed

lemma fold_applyConst_nullableBitFieldSize:
  "pk_nullableBitFieldSize (fold (applyConst P) ds packet) =
     (case lastParsed P ''NULLABLE_BIT_FIELD_SIZE'' ds of
        None \<Rightarrow> pk_nullableBitFieldSize packet | Some v \<Rightarrow> v)"
proof (induction ds rule: rev_induct)
  case Nil
  show ?case by (simp add: lastParsed_def)
next
  case (snoc d ds)
  then show ?case
    by (auto simp: lastParsed_snoc applyConst_def split: option.splits)
qed

lemma fold_applyConst_fixedBlockSize:
  "pk_fixedBlockSize (fold (applyConst P) ds packet) =
     (case lastParsed P ''FIXED_BLOCK_SIZE'' ds of
        None \<Rightarrow> pk_fixedBlockSize packet | Some v \<Rightarrow> v)"
proof (induction ds rule: rev_induct)
  case Nil
  show ?case by (simp add: lastParsed_def)
next
  case (snoc d ds)
  then show ?case
    by (auto simp: lastParsed_snoc applyConst_def split: option.splits)
qed

lemma fold_applyConst_variableFieldCount:
  "pk_variableFieldCount (fold (applyConst P) ds packet) =
     (case lastParsed P ''VARIABLE_FIELD_COUNT'' ds of
        None \<Rightarrow> pk_variableFieldCount packet | Some v \<Rightarrow> v)"
proof (induction ds rule: rev_induct)
  case Nil
  show ?case by (simp add: lastParsed_def)
next
  case (snoc d ds)
  then show ?case
    by (auto simp: lastParsed_snoc applyConst_def split: option.splits)
qed

lemma fold_applyConst_variableBlockStart:
  "pk_variableBlockStart (fold (applyConst P) ds packet) =
     (case lastParsed P ''VARIABLE_BLOCK_START'' ds of
        None \<Rightarrow> pk_variableBlockStart packet | Some v \<Rightarrow> v)"
proof (induction ds rule: rev_induct)
  case Nil
  show ?case by (simp add: lastParsed_def)
next
  case (snoc d ds)
  then show ?case
    by (auto simp: lastParsed_snoc applyConst_def split: option.splits)
qed

lemma fold_applyConst_maxSize:
  "pk_maxSize (fold (applyConst P) ds packet) =
     (case lastParsed P ''MAX_SIZE'' ds of None \<Rightarrow> pk_maxSize packet | Some v \<Rightarrow> v)"
proof (induction ds rule: rev_induct)
  case Nil
  show ?case by (simp add: lastParsed_def)
next
  case (snoc d ds)
  then show ?case
    by (auto simp: lastParsed_snoc applyConst_def split: option.splits)
qed

lemma fold_preserves_aux:
  assumes "\<And>x s. g (f x s) = g s"
  shows "g (fold f xs s) = g s"
  using assms by (induction xs arbitrary: s) simp_all

lemma constantsOf_fieldCallback: "constantsOf (fieldCallback c p) = constantsOf p"
  by (simp add: fieldCallback_def constantsOf_def split: option.splits)

lemma constantsOf_extractFields: "constantsOf (extractFields anc n p) = constantsOf p"
proof (cases "childForFieldName n ''body''")
  case None
  then show ?thesis by (simp add: extractFields_def)
next
  case (Some body)
  have "constantsOf (fold fieldCallback (preorder body) p) = constantsOf p"
    by (rule fold_preserves_aux) (rule constantsOf_fieldCallback)
  then show ?thesis
    using Some by (simp add: extractFields_def Let_def traverseTree_preorder constantsOf_def)
qed

lemma constantsOf_extractLayout: "constantsOf (extractLayout n p) = constantsOf p"
  by (simp add: extractLayout_def constantsOf_def split: option.splits)

lemma constantsOf_fold_applyConst:
  "constantsOf (fold (applyConst P) ds p) =
     ((case lastParsed P ''PACKET_ID'' ds of None \<Rightarrow> pk_packetId p | Some v \<Rightarrow> Some v),
      (case lastValue ''IS_COMPRESSED'' ds of None \<Rightarrow> pk_isCompressed p | Some v \<Rightarrow> v = ''true''),
      (case lastParsed P ''NULLABLE_BIT_FIELD_SIZE'' ds of
         None \<Rightarrow> pk_nullableBitFieldSize p | Some v \<Rightarrow> v),
      (case lastParsed P ''FIXED_BLOCK_SIZE'' ds of None \<Rightarrow> pk_fixedBlockSize p | Some v \<Rightarrow> v),
      (case lastParsed P ''VARIABLE_FIELD_COUNT'' ds of
         None \<Rightarrow> pk_variableFieldCount p | Some v \<Rightarrow> v),
      (case lastParsed P ''VARIABLE_BLOCK_START'' ds of
         None \<Rightarrow> pk_variableBlockStart p | Some v \<Rightarrow> v),
      (case lastParsed P ''MAX_SIZE'' ds of None \<Rightarrow> pk_maxSize p | Some v \<Rightarrow> v))"
  unfolding constantsOf_def fold_applyConst_isCompressed fold_applyConst_packetId
    fold_applyConst_nullableBitFieldSize fold_applyConst_fixedBlockSize
    fold_applyConst_variableFieldCount fold_applyConst_variableBlockStart
    fold_applyConst_maxSize ..

text \<open>
  C6 (as amended). The seven layout constants of an extracted packet are determined by the
  static final declarations in the class body, in traversal order: the compression flag
  is true exactly when the last declaration named \<^verbatim>\<open>IS_COMPRESSED\<close> has the
  initialiser \<^verbatim>\<open>true\<close>; each of the six numbers is the parsed initialiser of the
  last declaration of its name whose initialiser parses. Without such a declaration the
  flag is false, the five sizes and counts are zero, and the message identifier is left
  undefined (it is not zero).
\<close>

theorem packet_constants_from_declarations:
  "constantsOf (extractPacketInfo parseInt anc n content category) =
     (lastParsed parseInt ''PACKET_ID'' (constantDecls n),
      lastValue ''IS_COMPRESSED'' (constantDecls n) = Some ''true'',
      orZero (lastParsed parseInt ''NULLABLE_BIT_FIELD_SIZE'' (constantDecls n)),
      orZero (lastParsed parseInt ''FIXED_BLOCK_SIZE'' (constantDecls n)),
      orZero (lastParsed parseInt ''VARIABLE_FIELD_COUNT'' (constantDecls n)),
      orZero (lastParsed parseInt ''VARIABLE_BLOCK_START'' (constantDecls n)),
      orZero (lastParsed parseInt ''MAX_SIZE'' (constantDecls n)))"
  unfolding extractPacketInfo_def Let_def constantsOf_extractLayout constantsOf_extractFields
    extractConstants_fold constantsOf_fold_applyConst
  by (simp add: orZero_def split: option.splits)

theorem packet_constants_from_declarations_witness:
  "constantsOf (extractPacketInfo parseIntJS [] ex_constClass ''package p;'' ''auth'') =
     (Some 3, True, 0, 9, 0, 0, 0)"
proof -
  have "(lastParsed parseIntJS ''PACKET_ID'' (constantDecls ex_constClass),
      lastValue ''IS_COMPRESSED'' (constantDecls ex_constClass) = Some ''true'',
      orZero (lastParsed parseIntJS ''NULLABLE_BIT_FIELD_SIZE'' (constantDecls ex_constClass)),
      orZero (lastParsed parseIntJS ''FIXED_BLOCK_SIZE'' (constantDecls ex_constClass)),
      orZero (lastParsed parseIntJS ''VARIABLE_FIELD_COUNT'' (constantDecls ex_constClass)),
      orZero (lastParsed parseIntJS ''VARIABLE_BLOCK_START'' (constantDecls ex_constClass)),
      orZero (lastParsed parseIntJS ''MAX_SIZE'' (constantDecls ex_constClass))) =
     (Some 3, True, 0, 9, 0, 0, 0)"
    by code_simp
  with packet_constants_from_declarations [of parseIntJS "[]" ex_constClass "''package p;''" "''auth''"]
  show ?thesis by simp
qed

text \<open>
  The claim as stated fails for the message identifier: a class without a
  \<^verbatim>\<open>PACKET_ID\<close> declaration gets no identifier at all, not the identifier zero.
\<close>

theorem packet_id_absent_counterexample:
  "pk_packetId (extractPacketInfo parseIntJS [] ex_emptyClass ''package p;'' ''auth'') = None
   \<and> pk_packetId (extractPacketInfo parseIntJS [] ex_emptyClass ''package p;'' ''auth'') \<noteq> Some 0"
  by code_simp

subsection \<open>Field lists\<close>

lemma traverseTreeP_preorderP:
  "traverseTreeP anc n cb s = fold (\<lambda>ac. cb (fst ac) (snd ac)) (preorderP anc n) s"
proof (induction n arbitrary: s anc)
  case (Node t x nm f cs)
  let ?n = "Node t x nm f cs"
  have "fold (\<lambda>c. traverseTreeP (?n # anc) c cb) cs s' =
        fold (\<lambda>c. fold (\<lambda>ac. cb (fst ac) (snd ac)) (preorderP (?n # anc) c)) cs s'" for s'
    using Node.IH by (intro fold_cong) auto
  then show ?case by (simp add: fold_concat_aux fold_map comp_def)
qed

lemma ctorCallback_step:
  "ctorCallback a c st =
     (if qualifies (a, c) \<and> paramCount c > snd st then (Some c, paramCount c) else st)"
  by (auto simp: ctorCallback_def qualifies_def isCopyConstructor_def paramCount_def Let_def
      split: option.splits)

lemma fold_max_ge_aux: "m \<le> fold max xs (m::nat)"
proof (induction xs arbitrary: m)
  case Nil
  show ?case by simp
next
  case (Cons x xs)
  have "m \<le> max x m" by simp
  also have "\<dots> \<le> fold max xs (max x m)" by (rule Cons.IH)
  finally show ?case by simp
qed

lemma fold_ctorCallback:
  "fold (\<lambda>ac. ctorCallback (fst ac) (snd ac)) xs (b, m) =
     (let cs = map snd (filter qualifies xs); m' = maxParamCount m cs
      in (if m' = m then b else find (\<lambda>c. paramCount c = m') cs, m'))"
proof (induction xs arbitrary: b m)
  case Nil
  show ?case by (simp add: maxParamCount_def)
next
  case (Cons x xs)
  let ?cs = "map snd (filter qualifies xs)"
  show ?case
  proof (cases "qualifies x")
    case False
    then have hd: "ctorCallback (fst x) (snd x) (b, m) = (b, m)"
      by (simp add: ctorCallback_step)
    from False show ?thesis by (simp add: hd Cons.IH)
  next
    case q: True
    show ?thesis
    proof (cases "paramCount (snd x) > m")
      case True
      with q have hd: "ctorCallback (fst x) (snd x) (b, m) = (Some (snd x), paramCount (snd x))"
        by (simp add: ctorCallback_step)
      from True have mx: "max (paramCount (snd x)) m = paramCount (snd x)" by simp
      have ge: "paramCount (snd x) \<le> maxParamCount (paramCount (snd x)) ?cs"
        unfolding maxParamCount_def by (rule fold_max_ge_aux)
      with True have ne: "maxParamCount (paramCount (snd x)) ?cs \<noteq> m" by simp
      from q show ?thesis
        using ne by (simp add: hd Cons.IH maxParamCount_def mx Let_def)
    next
      case False
      with q have hd: "ctorCallback (fst x) (snd x) (b, m) = (b, m)"
        by (simp add: ctorCallback_step)
      from False have mx: "max (paramCount (snd x)) m = m" by simp
      have ge: "m \<le> maxParamCount m ?cs"
        unfolding maxParamCount_def by (rule fold_max_ge_aux)
      from q False show ?thesis
        using ge by (auto simp: hd Cons.IH maxParamCount_def mx Let_def)
    qed
  qed
qed

lemma extractFieldsFromConstructor_chosen:
  "extractFieldsFromConstructor anc body = constructorFieldsOf anc body"
  by (simp add: extractFieldsFromConstructor_def traverseTreeP_preorderP fold_ctorCallback
      constructorFieldsOf_def chosenConstructor_def candidates_def parameterFields_def Let_def
      split: option.splits)

lemma fold_fieldCallback:
  "pk_fields (fold fieldCallback xs p) =
     pk_fields p @ List.map_filter extractFieldInfo
       (filter (\<lambda>c. ntype c = ''field_declaration'' \<and> \<not> includesStr (modifiersText c) ''static'') xs)"
  by (induction xs arbitrary: p)
     (simp_all add: fieldCallback_def split: option.splits)

lemma pk_fields_extractLayout: "pk_fields (extractLayout n p) = pk_fields p"
  by (simp add: extractLayout_def split: option.splits)

lemma fold_preserves_fields_aux: "pk_fields (fold (applyConst P) ds p) = pk_fields p"
  by (rule fold_preserves_aux) (simp add: applyConst_def split: option.splits)

text \<open>
  C1 (as amended). For a class with a body, the field list of the extracted packet is
  read off the constructor with the largest parameter count (formal and spread
  parameters counted) among the constructors in the body that have a parameter list and
  are not copy constructors, the first such constructor in traversal order winning among
  equals: one field per formal parameter with a type and a name, in order, with the
  parameter's name, type text and \<^verbatim>\<open>@Nullable\<close> flag. Only when this gives no field
  is the list that of the non-static field declarations, in traversal order.
\<close>

theorem packet_fields_from_fullest_constructor:
  assumes "childForFieldName n ''body'' = Some body"
  shows "pk_fields (extractPacketInfo parseInt anc n content category) =
           (if constructorFieldsOf (n # anc) body \<noteq> [] then constructorFieldsOf (n # anc) body
            else declaredFields body)"
  using assms
  by (simp add: extractPacketInfo_def Let_def pk_fields_extractLayout extractFields_def
      extractFieldsFromConstructor_chosen traverseTree_preorder fold_fieldCallback
      extractConstants_fold fold_preserves_fields_aux declaredFields_def)

theorem packet_fields_from_fullest_constructor_witness:
  "childForFieldName ex_loginClass ''body'' = Some ex_loginBody
   \<and> map (\<lambda>f. (fi_name f, fi_javaType f, fi_nullable f))
       (pk_fields (extractPacketInfo parseIntJS [] ex_loginClass ''package p;'' ''auth'')) =
       [(''id'', ''int'', False), (''name'', ''String'', True)]
   \<and> map (\<lambda>f. (fi_name f, fi_javaType f, fi_nullable f))
       (if constructorFieldsOf [ex_loginClass] ex_loginBody \<noteq> []
        then constructorFieldsOf [ex_loginClass] ex_loginBody
        else declaredFields ex_loginBody) =
       [(''id'', ''int'', False), (''name'', ''String'', True)]
   \<and> map fi_name (declaredFields ex_loginBody) = [''name'', ''id'']"
proof -
  have h: "childForFieldName ex_loginClass ''body'' = Some ex_loginBody"
    by code_simp
  have v: "map (\<lambda>f. (fi_name f, fi_javaType f, fi_nullable f))
             (pk_fields (extractPacketInfo parseIntJS [] ex_loginClass ''package p;'' ''auth'')) =
           [(''id'', ''int'', False), (''name'', ''String'', True)]"
    by code_simp
  have d: "map fi_name (declaredFields ex_loginBody) = [''name'', ''id'']"
    by code_simp
  from packet_fields_from_fullest_constructor [OF h, of parseIntJS "[]" "''package p;''" "''auth''"]
  have "pk_fields (extractPacketInfo parseIntJS [] ex_loginClass ''package p;'' ''auth'') =
          (if constructorFieldsOf [ex_loginClass] ex_loginBody \<noteq> []
           then constructorFieldsOf [ex_loginClass] ex_loginBody
           else declaredFields ex_loginBody)" .
  with h v d show ?thesis by simp
qed

text \<open>
  The claim as stated fails for a constructor with a spread parameter: it is chosen with
  a parameter count of two, and the field list has the formal parameter only.
\<close>

theorem varargs_parameter_dropped_counterexample:
  "chosenConstructor [ex_chatClass] ex_chatBody = Some ex_chatCtor
   \<and> paramCount ex_chatCtor = 2
   \<and> map fi_name (pk_fields (extractPacketInfo parseIntJS [] ex_chatClass ''package p;'' ''chat''))
       = [''a'']"
  by code_simp

subsection \<open>Packet files\<close>

lemma fold_packetCallback:
  "fold (\<lambda>ac. packetCallback P content category (fst ac) (snd ac)) xs s =
     (case find isNamedClass (rev xs) of
        None \<Rightarrow> s
      | Some ac \<Rightarrow> Some (extractPacketInfo P (fst ac) (snd ac) content category))"
proof (induction xs rule: rev_induct)
  case Nil
  show ?case by simp
next
  case (snoc x xs)
  have step: "packetCallback P content category (fst x) (snd x) s' =
                (if isNamedClass x then Some (extractPacketInfo P (fst x) (snd x) content category)
                 else s')" for s'
    by (simp add: packetCallback_def isNamedClass_def Let_def)
  show ?case
    by (simp add: snoc.IH step)
qed

lemma map_snd_preorderP: "map snd (preorderP anc n) = preorder n"
proof (induction n arbitrary: anc)
  case (Node t x nm f cs)
  have h: "map (\<lambda>c. map snd (preorderP (Node t x nm f cs # anc) c)) cs = map preorder cs"
    using Node.IH by (intro map_cong) auto
  show ?case by (simp add: map_concat comp_def h)
qed

lemma classesNamed_find:
  assumes "classesNamed rootNode"
  shows "find isNamedClass (rev (preorderP [] rootNode)) = lastClass rootNode"
proof -
  have "isNamedClass ac = (ntype (snd ac) = ''class_declaration'')"
    if "ac \<in> set (rev (preorderP [] rootNode))" for ac
  proof -
    from that have "snd ac \<in> set (map snd (preorderP [] rootNode))" by auto
    then have "snd ac \<in> set (preorder rootNode)" by (simp only: map_snd_preorderP)
    with assms show ?thesis by (auto simp: classesNamed_def list_all_iff isNamedClass_def)
  qed
  then show ?thesis unfolding lastClass_def by (intro find_cong) auto
qed

text \<open>
  C10. For a packet file that is read, is not blank and has a syntax tree as the parser
  builds it, \<open>parsePacketFile\<close> returns the packet extracted from the last class
  declaration that the traversal of the tree visits, be it nested or top-level (and
  nothing when the tree has no class declaration).
\<close>

theorem parsePacketFile_last_class:
  assumes "sf_content file = Some content" and "trim content \<noteq> []"
    and "sf_tree file = Some rootNode" and "classesNamed rootNode"
  shows "parsePacketFile parseInt file relPath =
           map_option
             (\<lambda>ac. extractPacketInfo parseInt (fst ac) (snd ac) content
                      (categoryOf ''uncategorized'' relPath))
             (lastClass rootNode)"
  using assms(1-3) classesNamed_find [OF assms(4)]
  by (simp add: parsePacketFile_def traverseTreeP_preorderP fold_packetCallback
      split: option.splits)

theorem parsePacketFile_last_class_witness:
  "sf_content ex_nestedFile = Some ''class Outer { class Inner { } }''
   \<and> trim ''class Outer { class Inner { } }'' \<noteq> []
   \<and> sf_tree ex_nestedFile = Some ex_nestedRoot
   \<and> classesNamed ex_nestedRoot
   \<and> length (filter (\<lambda>n. ntype n = ''class_declaration'') (preorder ex_nestedRoot)) = 2
   \<and> map_option (ntext \<circ> snd) (lastClass ex_nestedRoot) = Some ''class Inner { }''
   \<and> map_option pk_name (parsePacketFile parseIntJS ex_nestedFile ''auth'') = Some ''Inner''"
proof -
  have h1: "sf_content ex_nestedFile = Some ''class Outer { class Inner { } }''"
    by (simp add: ex_nestedFile_def)
  have h2: "trim ''class Outer { class Inner { } }'' \<noteq> []"
    by code_simp
  have h3: "sf_tree ex_nestedFile = Some ex_nestedRoot"
    by (simp add: ex_nestedFile_def)
  have h4: "classesNamed ex_nestedRoot"
    by code_simp
  have c: "length (filter (\<lambda>n. ntype n = ''class_declaration'') (preorder ex_nestedRoot)) = 2"
    by code_simp
  have l: "map_option (ntext \<circ> snd) (lastClass ex_nestedRoot) = Some ''class Inner { }''"
    by code_simp
  have v: "map_option pk_name
             (map_option
                (\<lambda>ac. extractPacketInfo parseIntJS (fst ac) (snd ac)
                         ''class Outer { class Inner { } }'' (categoryOf ''uncategorized'' ''auth''))
                (lastClass ex_nestedRoot)) = Some ''Inner''"
    by code_simp
  from parsePacketFile_last_class [OF h1 h2 h3 h4, of parseIntJS "''auth''"] h1 h2 h3 h4 c l v
  show ?thesis by simp
qed

subsection \<open>The secondary enum pass\<close>

lemma enumOnlyCallback_keeps:
  "enums st name = Some e \<Longrightarrow> enums (enumOnlyCallback P content category relPath n st) name = Some e"
  by (auto simp: enumOnlyCallback_def split: option.splits)

lemma fold_enumOnlyCallback_keeps:
  "enums st name = Some e \<Longrightarrow>
   enums (fold (enumOnlyCallback P content category relPath) xs st) name = Some e"
  by (induction xs arbitrary: st) (simp_all add: enumOnlyCallback_keeps)

lemma parseEnumsFromFile_keeps:
  "enums st name = Some e \<Longrightarrow> enums (parseEnumsFromFile P file relPath st) name = Some e"
  by (simp add: parseEnumsFromFile_def traverseTree_preorder fold_enumOnlyCallback_keeps
      split: option.splits)

lemma walk_keeps_aux:
  fixes act :: "sourceFile \<Rightarrow> string \<Rightarrow> 's \<Rightarrow> 's"
  shows "(\<And>src rel s. Q s \<Longrightarrow> Q (act src rel s)) \<Longrightarrow> Q st
           \<Longrightarrow> Q (walkEntry sep skip act e relPath st)"
    and "(\<And>src rel s. Q s \<Longrightarrow> Q (act src rel s)) \<Longrightarrow> Q st
           \<Longrightarrow> Q (walkEntries sep skip act es relPath st)"
proof (induction sep skip act e relPath st and sep skip act es relPath st
    rule: walkEntry_walkEntries.induct)
  case (1 sep skip act name sub relPath st)
  then show ?case by simp
next
  case (2 sep skip act name src relPath st)
  then show ?case by simp
next
  case (3 sep skip act relPath st)
  then show ?case by simp
next
  case (4 sep skip act e es relPath st)
  then show ?case by simp
qed

lemma secondary_pass_keeps_aux:
  assumes "enums st name = Some e"
  shows "enums (parseEnumsFromPacketsDirectory sep P entries relPath st) name = Some e"
  unfolding parseEnumsFromPacketsDirectory_def
  by (rule walk_keeps_aux(2) [where Q = "\<lambda>s. enums s name = Some e"])
     (simp_all add: parseEnumsFromFile_keeps assms)

text \<open>
  C9. An enum that is registered under a name before the pass over the packets directory
  is registered under that name, unchanged, after it, whatever the directory holds.
\<close>

theorem secondary_pass_keeps_registered_enums:
  assumes "enums st name = Some e"
  shows "enums (parseEnumsFromPacketsDirectory sep parseInt entries relPath st) name = Some e"
  using assms by (rule secondary_pass_keeps_aux)

theorem secondary_pass_keeps_registered_enums_witness:
  "enums ex_state ''Color'' = Some ex_sharedColor
   \<and> enums (parseEnumsFromPacketsDirectory ''/'' parseIntJS ex_packets [] ex_state) ''Color''
       = Some ex_sharedColor
   \<and> map_option en_package
        (enums (parseEnumsFromPacketsDirectory ''/'' parseIntJS ex_packets []
                  \<lparr>enums = Map.empty, dataClasses = Map.empty\<rparr>) ''Color'') = Some ''p''"
proof -
  have h: "enums ex_state ''Color'' = Some ex_sharedColor"
    by (simp add: ex_state_def)
  have v: "map_option en_package
        (enums (parseEnumsFromPacketsDirectory ''/'' parseIntJS ex_packets []
                  \<lparr>enums = Map.empty, dataClasses = Map.empty\<rparr>) ''Color'') = Some ''p''"
    by code_simp
  from secondary_pass_keeps_registered_enums [OF h, of "''/''" parseIntJS ex_packets "[]"] h v
  show ?thesis by simp
qed

text \<open>The same for the whole run: what the primary pass registered is in the result.\<close>

lemma parseAll_keeps_primary_enums:
  assumes "parseAll sep P protocolDir = Inr r"
    and "enums (parseProtocolEntities sep P protocolDir) name = Some e"
  shows "pr_enums r name = Some e"
  using assms
  by (auto simp: parseAll_def Let_def secondary_pass_keeps_aux split: option.splits)

subsection \<open>Categories\<close>

lemma relPathOf_snoc: "relPathOf sep (dirs @ [name]) = pathJoin sep (relPathOf sep dirs) name"
  by (simp add: relPathOf_def)

lemma walk_fold_aux:
  fixes act :: "sourceFile \<Rightarrow> string \<Rightarrow> 's \<Rightarrow> 's"
  shows "walkEntry sep skip act e (relPathOf sep dirs) st =
           fold (\<lambda>df. act (snd df) (relPathOf sep (fst df))) (javaFilesE skip e dirs) st"
    and "walkEntries sep skip act es (relPathOf sep dirs) st =
           fold (\<lambda>df. act (snd df) (relPathOf sep (fst df))) (javaFilesL skip es dirs) st"
proof (induction skip e dirs and skip es dirs arbitrary: st and st
    rule: javaFilesE_javaFilesL.induct)
  case (1 skip name sub dirs)
  then show ?case by (simp add: relPathOf_snoc)
next
  case (2 skip name src dirs)
  show ?case by simp
next
  case (3 skip dirs)
  show ?case by simp
next
  case (4 skip e es dirs)
  then show ?case by simp
qed

lemma walk_fold_root_aux:
  "walkEntries sep skip act es [] st =
     fold (\<lambda>df. act (snd df) (relPathOf sep (fst df))) (javaFilesL skip es []) st"
  using walk_fold_aux(2) [of sep skip act es "[]" st] by (simp add: relPathOf_def)

lemma fold_origin_aux:
  assumes "\<And>x s. x \<in> set xs \<Longrightarrow> G (f x s) \<Longrightarrow> G s \<or> R x"
    and "G (fold f xs st)"
  shows "G st \<or> (\<exists>x\<in>set xs. R x)"
  using assms
proof (induction xs arbitrary: st)
  case Nil
  then show ?case by simp
next
  case (Cons x xs)
  from Cons.prems(2) have "G (fold f xs (f x st))" by simp
  with Cons.IH [of "f x st"] Cons.prems(1)
  have "G (f x st) \<or> (\<exists>y\<in>set xs. R y)" by auto
  with Cons.prems(1) [of x st] show ?case by auto
qed

lemma set_map_filter_aux: "y \<in> set (List.map_filter f xs) \<longleftrightarrow> (\<exists>x\<in>set xs. f x = Some y)"
  by (induction xs) (auto split: option.splits)

lemma extractEnumInfo_category:
  "extractEnumInfo P n content category relPath = Some e \<Longrightarrow> en_category e = category"
  by (auto simp: extractEnumInfo_def Let_def split: if_splits)

lemma extractDataClassInfo_category:
  "extractDataClassInfo n content category relPath = Some d \<Longrightarrow> dc_category d = category"
  by (auto simp: extractDataClassInfo_def Let_def split: if_splits)

lemma fileEnums_category:
  "e \<in> set (fileEnums P src relPath) \<Longrightarrow> en_category e = categoryOf ''root'' relPath"
  by (auto simp: fileEnums_def set_map_filter_aux extractEnumInfo_category
      split: option.splits if_splits)

lemma fileDataClasses_category:
  "d \<in> set (fileDataClasses src relPath) \<Longrightarrow> dc_category d = categoryOf ''root'' relPath"
  by (auto simp: fileDataClasses_def set_map_filter_aux extractDataClassInfo_category
      split: option.splits if_splits)

lemma entityCallback_enum_origin:
  "enums (entityCallback P content category relPath n st) name = Some e \<Longrightarrow>
   enums st name = Some e
   \<or> (ntype n = ''enum_declaration'' \<and> extractEnumInfo P n content category relPath = Some e)"
  by (auto simp: entityCallback_def split: if_splits option.splits)

lemma enumOnlyCallback_enum_origin:
  "enums (enumOnlyCallback P content category relPath n st) name = Some e \<Longrightarrow>
   enums st name = Some e
   \<or> (ntype n = ''enum_declaration'' \<and> extractEnumInfo P n content category relPath = Some e)"
  by (auto simp: enumOnlyCallback_def split: if_splits option.splits)

lemma entityCallback_dataClass_origin:
  "dataClasses (entityCallback P content category relPath n st) name = Some d \<Longrightarrow>
   dataClasses st name = Some d
   \<or> (ntype n = ''class_declaration'' \<and> extractDataClassInfo n content category relPath = Some d)"
  by (auto simp: entityCallback_def split: if_splits option.splits)

lemma enumOnlyCallback_dataClasses:
  "dataClasses (enumOnlyCallback P content category relPath n st) = dataClasses st"
  by (simp add: enumOnlyCallback_def split: option.splits)

lemma parseEntityFile_enum_origin:
  assumes "enums (parseEntityFile P src relPath st) name = Some e"
  shows "enums st name = Some e \<or> e \<in> set (fileEnums P src relPath)"
proof (cases "sf_content src")
  case None
  with assms show ?thesis by (simp add: parseEntityFile_def)
next
  case (Some content)
  show ?thesis
  proof (cases "sf_tree src")
    case None
    with assms Some show ?thesis by (simp add: parseEntityFile_def split: if_splits)
  next
    case (Some rootNode)
    let ?cat = "categoryOf ''root'' relPath"
    show ?thesis
    proof (cases "length (trim content) = 0")
      case True
      with assms \<open>sf_content src = Some content\<close> show ?thesis
        by (simp add: parseEntityFile_def)
    next
      case False
      with assms \<open>sf_content src = Some content\<close> Some
      have g: "enums (fold (entityCallback P content ?cat relPath) (preorder rootNode) st) name
                 = Some e"
        by (simp add: parseEntityFile_def traverseTree_preorder)
      have "enums st name = Some e
            \<or> (\<exists>n\<in>set (preorder rootNode).
                  ntype n = ''enum_declaration''
                  \<and> extractEnumInfo P n content ?cat relPath = Some e)"
        by (rule fold_origin_aux [where G = "\<lambda>s. enums s name = Some e", OF _ g])
           (rule entityCallback_enum_origin)
      then show ?thesis
        using \<open>sf_content src = Some content\<close> Some
        by (auto simp: fileEnums_def set_map_filter_aux)
    qed
  qed
qed

lemma parseEnumsFromFile_enum_origin:
  assumes "enums (parseEnumsFromFile P src relPath st) name = Some e"
  shows "enums st name = Some e \<or> e \<in> set (fileEnums P src relPath)"
proof (cases "sf_content src")
  case None
  with assms show ?thesis by (simp add: parseEnumsFromFile_def)
next
  case (Some content)
  show ?thesis
  proof (cases "sf_tree src")
    case None
    with assms Some show ?thesis by (simp add: parseEnumsFromFile_def split: if_splits)
  next
    case (Some rootNode)
    let ?cat = "categoryOf ''root'' relPath"
    show ?thesis
    proof (cases "length (trim content) = 0")
      case True
      with assms \<open>sf_content src = Some content\<close> show ?thesis
        by (simp add: parseEnumsFromFile_def)
    next
      case False
      with assms \<open>sf_content src = Some content\<close> Some
      have g: "enums (fold (enumOnlyCallback P content ?cat relPath) (preorder rootNode) st) name
                 = Some e"
        by (simp add: parseEnumsFromFile_def traverseTree_preorder)
      have "enums st name = Some e
            \<or> (\<exists>n\<in>set (preorder rootNode).
                  ntype n = ''enum_declaration''
                  \<and> extractEnumInfo P n content ?cat relPath = Some e)"
        by (rule fold_origin_aux [where G = "\<lambda>s. enums s name = Some e", OF _ g])
           (rule enumOnlyCallback_enum_origin)
      then show ?thesis
        using \<open>sf_content src = Some content\<close> Some
        by (auto simp: fileEnums_def set_map_filter_aux)
    qed
  qed
qed

lemma parseEntityFile_dataClass_origin:
  assumes "dataClasses (parseEntityFile P src relPath st) name = Some d"
  shows "dataClasses st name = Some d \<or> d \<in> set (fileDataClasses src relPath)"
proof (cases "sf_content src")
  case None
  with assms show ?thesis by (simp add: parseEntityFile_def)
next
  case (Some content)
  show ?thesis
  proof (cases "sf_tree src")
    case None
    with assms Some show ?thesis by (simp add: parseEntityFile_def split: if_splits)
  next
    case (Some rootNode)
    let ?cat = "categoryOf ''root'' relPath"
    show ?thesis
    proof (cases "length (trim content) = 0")
      case True
      with assms \<open>sf_content src = Some content\<close> show ?thesis
        by (simp add: parseEntityFile_def)
    next
      case False
      with assms \<open>sf_content src = Some content\<close> Some
      have g: "dataClasses (fold (entityCallback P content ?cat relPath) (preorder rootNode) st)
                 name = Some d"
        by (simp add: parseEntityFile_def traverseTree_preorder)
      have "dataClasses st name = Some d
            \<or> (\<exists>n\<in>set (preorder rootNode).
                  ntype n = ''class_declaration''
                  \<and> extractDataClassInfo n content ?cat relPath = Some d)"
        by (rule fold_origin_aux [where G = "\<lambda>s. dataClasses s name = Some d", OF _ g])
           (rule entityCallback_dataClass_origin)
      then show ?thesis
        using \<open>sf_content src = Some content\<close> Some
        by (auto simp: fileDataClasses_def set_map_filter_aux)
    qed
  qed
qed

lemma parseEnumsFromFile_dataClasses:
  "dataClasses (parseEnumsFromFile P src relPath st) = dataClasses st"
proof -
  have "dataClasses (fold (enumOnlyCallback P content category relPath) xs st) = dataClasses st"
    for content category xs
    by (rule fold_preserves_aux) (rule enumOnlyCallback_dataClasses)
  then show ?thesis
    by (simp add: parseEnumsFromFile_def traverseTree_preorder split: option.splits)
qed

lemma pk_category_extractPacketInfo:
  "pk_category (extractPacketInfo P anc n content category) = category"
proof -
  have a: "pk_category (fold (applyConst P) ds p) = pk_category p" for ds p
    by (rule fold_preserves_aux) (simp add: applyConst_def split: option.splits)
  have b: "pk_category (fold fieldCallback xs p) = pk_category p" for xs p
    by (rule fold_preserves_aux) (simp add: fieldCallback_def split: option.splits)
  have c: "pk_category (extractFields anc n p) = pk_category p" for p
    by (simp add: extractFields_def Let_def traverseTree_preorder b split: option.splits)
  have d: "pk_category (extractLayout n p) = pk_category p" for p
    by (simp add: extractLayout_def split: option.splits)
  show ?thesis
    by (simp add: extractPacketInfo_def Let_def d c extractConstants_fold a)
qed

lemma parsePacketFile_category:
  assumes "parsePacketFile P src relPath = Some p"
  shows "pk_category p = categoryOf ''uncategorized'' relPath"
  using assms
  by (auto simp: parsePacketFile_def traverseTreeP_preorderP fold_packetCallback
      pk_category_extractPacketInfo split: option.splits if_splits)

lemma addPacketFile_origin:
  assumes "\<exists>ps. addPacketFile P src relPath result c = Some ps \<and> p \<in> set ps"
  shows "(\<exists>ps. result c = Some ps \<and> p \<in> set ps)
         \<or> (parsePacketFile P src relPath = Some p \<and> c = categoryOf ''uncategorized'' relPath)"
  using assms
  by (auto simp: addPacketFile_def Let_def split: option.splits if_splits)

lemma parsePacketDirectory_origin:
  assumes "parsePacketDirectory sep P packets [] Map.empty c = Some ps" and "p \<in> set ps"
  shows "\<exists>df\<in>set (packetFiles packets).
           parsePacketFile P (snd df) (relPathOf sep (fst df)) = Some p
           \<and> c = categoryOf ''uncategorized'' (relPathOf sep (fst df))"
proof -
  let ?G = "\<lambda>s :: string \<rightharpoonup> PacketInfo list. \<exists>ps. s c = Some ps \<and> p \<in> set ps"
  let ?f = "\<lambda>df. addPacketFile P (snd df) (relPathOf sep (fst df))"
  from assms have g: "?G (fold ?f (packetFiles packets) Map.empty)"
    by (auto simp: parsePacketDirectory_def walk_fold_root_aux packetFiles_def)
  have "?G Map.empty \<or> (\<exists>df\<in>set (packetFiles packets).
           parsePacketFile P (snd df) (relPathOf sep (fst df)) = Some p
           \<and> c = categoryOf ''uncategorized'' (relPathOf sep (fst df)))"
    by (rule fold_origin_aux [where G = ?G and f = ?f, OF _ g]) (rule addPacketFile_origin)
  then show ?thesis by simp
qed

lemma parseEntityDirectory_enum_origin:
  assumes "enums (parseEntityDirectory sep P protocolDir [] st) name = Some e"
  shows "enums st name = Some e
         \<or> (\<exists>df\<in>set (entityFiles protocolDir). e \<in> set (fileEnums P (snd df) (relPathOf sep (fst df))))"
proof -
  let ?f = "\<lambda>df. parseEntityFile P (snd df) (relPathOf sep (fst df))"
  from assms have g: "enums (fold ?f (entityFiles protocolDir) st) name = Some e"
    by (simp add: parseEntityDirectory_def walk_fold_root_aux entityFiles_def)
  show ?thesis
    by (rule fold_origin_aux [where G = "\<lambda>s. enums s name = Some e" and f = ?f, OF _ g])
       (rule parseEntityFile_enum_origin)
qed

lemma parseEntityDirectory_dataClass_origin:
  assumes "dataClasses (parseEntityDirectory sep P protocolDir [] st) name = Some d"
  shows "dataClasses st name = Some d
         \<or> (\<exists>df\<in>set (entityFiles protocolDir).
               d \<in> set (fileDataClasses (snd df) (relPathOf sep (fst df))))"
proof -
  let ?f = "\<lambda>df. parseEntityFile P (snd df) (relPathOf sep (fst df))"
  from assms have g: "dataClasses (fold ?f (entityFiles protocolDir) st) name = Some d"
    by (simp add: parseEntityDirectory_def walk_fold_root_aux entityFiles_def)
  show ?thesis
    by (rule fold_origin_aux [where G = "\<lambda>s. dataClasses s name = Some d" and f = ?f, OF _ g])
       (rule parseEntityFile_dataClass_origin)
qed

lemma secondary_enum_origin:
  assumes "enums (parseEnumsFromPacketsDirectory sep P packets [] st) name = Some e"
  shows "enums st name = Some e
         \<or> (\<exists>df\<in>set (packetFiles packets). e \<in> set (fileEnums P (snd df) (relPathOf sep (fst df))))"
proof -
  let ?f = "\<lambda>df. parseEnumsFromFile P (snd df) (relPathOf sep (fst df))"
  from assms have g: "enums (fold ?f (packetFiles packets) st) name = Some e"
    by (simp add: parseEnumsFromPacketsDirectory_def walk_fold_root_aux packetFiles_def)
  show ?thesis
    by (rule fold_origin_aux [where G = "\<lambda>s. enums s name = Some e" and f = ?f, OF _ g])
       (rule parseEnumsFromFile_enum_origin)
qed

lemma secondary_dataClasses:
  "dataClasses (parseEnumsFromPacketsDirectory sep P packets relPath st) = dataClasses st"
  unfolding parseEnumsFromPacketsDirectory_def
  by (rule walk_keeps_aux(2) [where Q = "\<lambda>s. dataClasses s = dataClasses st"])
     (simp_all add: parseEnumsFromFile_dataClasses)

text \<open>
  C8 (as amended). In the result of a run, every packet listed under a category carries
  that category and was parsed from a file of the packets directory whose directory path,
  relative to the packets directory, gives the category: the joined directory names with
  every backslash replaced by a slash, and \<^verbatim>\<open>uncategorized\<close> for a file directly in
  the packets directory. Every data class and every enum comes from a file reached by the
  entity walk (for enums also by the walk of the packets directory, then relative to
  it) and carries the category given by that file's directory path in the same way, with
  \<^verbatim>\<open>root\<close> for a file at the top. The case of the letters is kept as it is.
\<close>

theorem categories_follow_directories:
  assumes "parseAll sep parseInt protocolDir = Inr r"
    and "packetsDir protocolDir = Some packets"
  shows "(packetsByCategory r c = Some ps \<and> p \<in> set ps \<longrightarrow>
            pk_category p = c
            \<and> (\<exists>df\<in>set (packetFiles packets).
                  parsePacketFile parseInt (snd df) (relPathOf sep (fst df)) = Some p
                  \<and> c = categoryOf ''uncategorized'' (relPathOf sep (fst df))))
       \<and> (pr_dataClasses r dname = Some d \<longrightarrow>
            (\<exists>df\<in>set (entityFiles protocolDir).
                d \<in> set (fileDataClasses (snd df) (relPathOf sep (fst df)))
                \<and> dc_category d = categoryOf ''root'' (relPathOf sep (fst df))))
       \<and> (pr_enums r ename = Some e \<longrightarrow>
            (\<exists>df\<in>set (entityFiles protocolDir @ packetFiles packets).
                e \<in> set (fileEnums parseInt (snd df) (relPathOf sep (fst df)))
                \<and> en_category e = categoryOf ''root'' (relPathOf sep (fst df))))"
proof (intro conjI impI)
  from assms have r: "r = \<lparr>packetsByCategory = parsePacketDirectory sep parseInt packets [] Map.empty,
      pr_enums = enums (parseEnumsFromPacketsDirectory sep parseInt packets []
                          (parseProtocolEntities sep parseInt protocolDir)),
      pr_dataClasses = dataClasses (parseEnumsFromPacketsDirectory sep parseInt packets []
                          (parseProtocolEntities sep parseInt protocolDir))\<rparr>"
    by (simp add: parseAll_def Let_def)
  {
    assume a: "packetsByCategory r c = Some ps \<and> p \<in> set ps"
    with r have "parsePacketDirectory sep parseInt packets [] Map.empty c = Some ps" and "p \<in> set ps"
      by simp_all
    from parsePacketDirectory_origin [OF this]
    obtain df where df: "df \<in> set (packetFiles packets)"
      "parsePacketFile parseInt (snd df) (relPathOf sep (fst df)) = Some p"
      "c = categoryOf ''uncategorized'' (relPathOf sep (fst df))"
      by blast
    from parsePacketFile_category [OF df(2)] df(3) show "pk_category p = c" by simp
    from df show "\<exists>df\<in>set (packetFiles packets).
        parsePacketFile parseInt (snd df) (relPathOf sep (fst df)) = Some p
        \<and> c = categoryOf ''uncategorized'' (relPathOf sep (fst df))"
      by blast
  }
  {
    assume "pr_dataClasses r dname = Some d"
    with r have "dataClasses (parseProtocolEntities sep parseInt protocolDir) dname = Some d"
      by (simp add: secondary_dataClasses)
    then have "\<exists>df\<in>set (entityFiles protocolDir).
        d \<in> set (fileDataClasses (snd df) (relPathOf sep (fst df)))"
      unfolding parseProtocolEntities_def
      by (auto dest: parseEntityDirectory_dataClass_origin)
    then show "\<exists>df\<in>set (entityFiles protocolDir).
        d \<in> set (fileDataClasses (snd df) (relPathOf sep (fst df)))
        \<and> dc_category d = categoryOf ''root'' (relPathOf sep (fst df))"
      by (auto simp: fileDataClasses_category)
  }
  {
    assume "pr_enums r ename = Some e"
    with r have "enums (parseEnumsFromPacketsDirectory sep parseInt packets []
                   (parseProtocolEntities sep parseInt protocolDir)) ename = Some e"
      by simp
    from secondary_enum_origin [OF this]
    have "\<exists>df\<in>set (entityFiles protocolDir @ packetFiles packets).
        e \<in> set (fileEnums parseInt (snd df) (relPathOf sep (fst df)))"
      unfolding parseProtocolEntities_def
      by (auto dest: parseEntityDirectory_enum_origin)
    then show "\<exists>df\<in>set (entityFiles protocolDir @ packetFiles packets).
        e \<in> set (fileEnums parseInt (snd df) (relPathOf sep (fst df)))
        \<and> en_category e = categoryOf ''root'' (relPathOf sep (fst df))"
      by (auto simp: fileEnums_category)
  }
qed

theorem categories_follow_directories_witness:
  "parseAll ''/'' parseIntJS ex_protocolDir \<noteq> Inl NoPacketsDirectory
   \<and> packetsDir ex_protocolDir = Some ex_packets
   \<and> map_option (map pk_name) (packetsByCategory (projr (parseAll ''/'' parseIntJS ex_protocolDir)) ''Auth'')
       = Some [''Login'']
   \<and> pk_category (hd (the (packetsByCategory (projr (parseAll ''/'' parseIntJS ex_protocolDir)) ''Auth'')))
       = ''Auth''
   \<and> map_option dc_category (pr_dataClasses (projr (parseAll ''/'' parseIntJS ex_protocolDir)) ''Login'')
       = Some ''Types''
   \<and> map_option en_category (pr_enums (projr (parseAll ''/'' parseIntJS ex_protocolDir)) ''Color'')
       = Some ''Types''"
proof -
  let ?r = "projr (parseAll ''/'' parseIntJS ex_protocolDir)"
  let ?ps = "the (packetsByCategory ?r ''Auth'')"
  let ?d = "the (pr_dataClasses ?r ''Login'')"
  let ?e = "the (pr_enums ?r ''Color'')"
  have pd: "packetsDir ex_protocolDir = Some ex_packets"
    by (simp add: ex_protocolDir_def)
  then have pa: "parseAll ''/'' parseIntJS ex_protocolDir = Inr ?r"
    by (simp add: parseAll_def Let_def)
  from pd have ne: "parseAll ''/'' parseIntJS ex_protocolDir \<noteq> Inl NoPacketsDirectory"
    by (simp add: parseAll_def Let_def)
  have n1: "map_option (map pk_name) (packetsByCategory ?r ''Auth'') = Some [''Login'']"
    by code_simp
  have n2: "map_option dc_category (pr_dataClasses ?r ''Login'') = Some ''Types''"
    by code_simp
  have n3: "map_option en_category (pr_enums ?r ''Color'') = Some ''Types''"
    by code_simp
  from n1 have h1: "packetsByCategory ?r ''Auth'' = Some ?ps \<and> hd ?ps \<in> set ?ps"
    by (cases "packetsByCategory ?r ''Auth''") auto
  from n2 have h2: "pr_dataClasses ?r ''Login'' = Some ?d"
    by (cases "pr_dataClasses ?r ''Login''") auto
  from n3 have h3: "pr_enums ?r ''Color'' = Some ?e"
    by (cases "pr_enums ?r ''Color''") auto
  from categories_follow_directories [OF pa pd, of "''Auth''" ?ps "hd ?ps" "''Login''" ?d "''Color''" ?e]
    h1 h2 h3
  have "pk_category (hd ?ps) = ''Auth''" by blast
  with ne pd n1 n2 n3 show ?thesis by simp
qed

text \<open>
  The claim as stated fails for a directory name with capitals: the packet of
  \<^verbatim>\<open>packets/Auth/Login.java\<close> is listed under \<^verbatim>\<open>Auth\<close> with the category
  \<^verbatim>\<open>Auth\<close>, and nothing is listed under \<^verbatim>\<open>auth\<close>.
\<close>

theorem category_case_kept_counterexample:
  "map_option (map pk_category)
     (packetsByCategory (projr (parseAll ''/'' parseIntJS ex_protocolDir)) ''Auth'') = Some [''Auth'']
   \<and> toLowerCase ''Auth'' = ''auth''
   \<and> packetsByCategory (projr (parseAll ''/'' parseIntJS ex_protocolDir)) (toLowerCase ''Auth'') = None"
  by code_simp

subsection \<open>Layout analysis\<close>

lemma chunks_Nil: "chunks k [] = []"
  by (subst chunks.simps) simp

lemma chunks_step: "0 < k \<Longrightarrow> xs \<noteq> [] \<Longrightarrow> chunks k xs = take k xs # chunks k (drop k xs)"
  by (subst chunks.simps) simp

lemma ceil_div_step_aux:
  fixes n k :: nat
  assumes "0 < k" and "0 < n"
  shows "(n + k - 1) div k = Suc ((n - k + k - 1) div k)"
proof -
  from assms(2) have a: "n + k - 1 = (n - 1) + k" by simp
  have b: "((n - 1) + k) div k = Suc ((n - 1) div k)"
    using assms(1) div_add_self2 [of k "n - 1"] by simp
  show ?thesis
  proof (cases "n \<le> k")
    case True
    with assms have "(n - 1) div k = 0" by simp
    moreover from True assms(1) have "(n - k + k - 1) div k = 0" by simp
    ultimately show ?thesis unfolding a b by simp
  next
    case False
    then have "n - k + k - 1 = n - 1" by simp
    then show ?thesis unfolding a b by simp
  qed
qed

lemma concat_chunks: "0 < k \<Longrightarrow> concat (chunks k xs) = xs"
proof (induction k xs rule: chunks.induct)
  case (1 k xs)
  show ?case
  proof (cases "xs = []")
    case True
    then show ?thesis by (simp add: chunks_Nil)
  next
    case False
    with 1 have "concat (chunks k (drop k xs)) = drop k xs" by simp
    with False 1(2) show ?thesis by (simp add: chunks_step)
  qed
qed

lemma length_chunks: "0 < k \<Longrightarrow> length (chunks k xs) = (length xs + k - 1) div k"
proof (induction k xs rule: chunks.induct)
  case (1 k xs)
  show ?case
  proof (cases "xs = []")
    case True
    with 1(2) show ?thesis by (simp add: chunks_Nil)
  next
    case False
    with 1 have IH: "length (chunks k (drop k xs)) = (length xs - k + k - 1) div k" by simp
    from False have "0 < length xs" by simp
    from ceil_div_step_aux [OF 1(2) this] IH False 1(2)
    show ?thesis by (simp add: chunks_step)
  qed
qed

lemma chunks_le: "0 < k \<Longrightarrow> g \<in> set (chunks k xs) \<Longrightarrow> length g \<le> k"
proof (induction k xs rule: chunks.induct)
  case (1 k xs)
  show ?case
  proof (cases "xs = []")
    case True
    with 1(3) show ?thesis by (simp add: chunks_Nil)
  next
    case False
    with 1(2,3) have "g = take k xs \<or> g \<in> set (chunks k (drop k xs))"
      by (simp add: chunks_step)
    with 1(1) [OF _ 1(2)] False 1(2) show ?thesis by auto
  qed
qed


lemma sendAttempts_requests:
  "fst (sendAttempts sv rq attempt retries) \<noteq> []
   \<and> length (fst (sendAttempts sv rq attempt retries)) \<le> Suc retries
   \<and> set (fst (sendAttempts sv rq attempt retries)) = {rq}"
proof (induction retries arbitrary: attempt)
  case 0
  show ?case by simp
next
  case (Suc retries)
  from Suc [of "Suc attempt"] show ?case
    by (cases "sv rq attempt") (simp_all add: Let_def)
qed

lemma analyzePacket_never_throws: "snd (analyzePacket an gen p) \<noteq> Inl error"
  by (simp add: analyzePacket_def tryCatch_def Let_def split: sum.splits option.splits)

lemma analyzePacket_layoutOf: "snd (analyzePacket an gen p) = Inr (layoutOf an gen p)"
  using analyzePacket_never_throws [of an gen p]
  by (cases "snd (analyzePacket an gen p)") (auto simp: layoutOf_def)

lemma analyzePacket_requests:
  "fst (analyzePacket an gen p) = (if hasContext p then fst (gen (requestFor an p)) else [])"
  by (simp add: analyzePacket_def Let_def)

lemma promiseAll_batch:
  "promiseAll (map snd (map (analyzePacket an gen) batch)) = Inr (map (layoutOf an gen) batch)"
  by (induction batch) (simp_all add: analyzePacket_layoutOf)

lemma requests_batch:
  "\<forall>p\<in>set batch. hasContext p \<Longrightarrow>
   map fst (map (analyzePacket an gen) batch) = map (\<lambda>p. fst (gen (requestFor an p))) batch"
  by (induction batch) (simp_all add: analyzePacket_requests)

lemma fold_storeResult_zip:
  "fold storeResult (zip (map pk_name batch) (map (layoutOf an gen) batch)) m =
   fold (\<lambda>p. storeResult (pk_name p, layoutOf an gen p)) batch m"
  by (induction batch arbitrary: m) simp_all

lemma analyzeLoop_result:
  assumes "0 < k" and "k = nat (an_maxConcurrency an)"
  shows "\<forall>p\<in>set queue. hasContext p \<Longrightarrow>
         analyzeLoop an gen queue results groups =
           Some (groups @ map (map (\<lambda>p. fst (gen (requestFor an p)))) (chunks k queue),
                 Inr (fold (\<lambda>p. storeResult (pk_name p, layoutOf an gen p)) queue results))"
  using assms
proof (induction k queue arbitrary: results groups rule: chunks.induct)
  case (1 k queue)
  show ?case
  proof (cases "queue = []")
    case True
    then show ?thesis by (subst analyzeLoop.simps) (simp add: chunks_Nil)
  next
    case False
    let ?batch = "take k queue"
    let ?rest = "drop k queue"
    let ?f = "\<lambda>p. storeResult (pk_name p, layoutOf an gen p)"
    let ?c = "\<lambda>p. fst (gen (requestFor an p))"
    from "1.prems"(1) have ctxB: "\<forall>p\<in>set ?batch. hasContext p"
      by (meson in_set_takeD)
    from "1.prems"(1) have ctxR: "\<forall>p\<in>set ?rest. hasContext p"
      by (meson in_set_dropD)
    from False "1.prems"(2) have c: "\<not> (k = 0 \<or> queue = [])" by simp
    have IH: "analyzeLoop an gen ?rest (fold ?f ?batch results) (groups @ [map ?c ?batch]) =
              Some ((groups @ [map ?c ?batch]) @ map (map ?c) (chunks k ?rest),
                    Inr (fold ?f ?rest (fold ?f ?batch results)))"
      by (rule "1.IH" [OF c ctxR "1.prems"(2) "1.prems"(3)])
    have "fold ?f (?batch @ ?rest) results = fold ?f ?rest (fold ?f ?batch results)"
      by (simp only: fold_append comp_apply)
    then have fo: "fold ?f ?rest (fold ?f ?batch results) = fold ?f queue results"
      by (simp only: append_take_drop_id)
    have "analyzeLoop an gen queue results groups =
            analyzeLoop an gen ?rest (fold ?f ?batch results) (groups @ [map ?c ?batch])"
      apply (subst analyzeLoop.simps)
      apply (simp only: Let_def "1.prems"(3) [symmetric] promiseAll_batch requests_batch [OF ctxB]
          fold_storeResult_zip sum.case)
      using False apply simp
      done
    with IH fo show ?thesis
      using False "1.prems"(2) by (simp add: chunks_step)
  qed
qed

lemma successes_Cons:
  "successes an gen (p # ps) =
     (case layoutOf an gen p of None \<Rightarrow> successes an gen ps
      | Some layout \<Rightarrow> (pk_name p, layout) # successes an gen ps)"
  by (simp add: successes_def split: option.splits)

lemma fold_storeResult_map_of:
  "fold (\<lambda>p. storeResult (pk_name p, layoutOf an gen p)) ps m =
     m ++ map_of (rev (successes an gen ps))"
proof (induction ps arbitrary: m)
  case Nil
  show ?case by (simp add: successes_def)
next
  case (Cons p ps)
  show ?case
  proof (cases "layoutOf an gen p")
    case None
    then have "storeResult (pk_name p, layoutOf an gen p) m = m"
      by (simp add: storeResult_def)
    with None show ?thesis by (simp add: Cons.IH successes_Cons)
  next
    case (Some layout)
    let ?f = "\<lambda>p. storeResult (pk_name p, layoutOf an gen p)"
    let ?X = "rev (successes an gen ps)"
    have key: "m(pk_name p \<mapsto> layout) ++ map_of ?X = m ++ map_of (?X @ [(pk_name p, layout)])"
      by (rule ext) (simp add: map_add_def map_of_append split: option.splits)
    from Some have step: "?f p m = m(pk_name p \<mapsto> layout)"
      by (simp add: storeResult_def)
    from Some have r: "?X @ [(pk_name p, layout)] = rev (successes an gen (p # ps))"
      by (simp add: successes_Cons)
    have "fold ?f (p # ps) m = fold ?f ps (?f p m)" by simp
    also have "\<dots> = fold ?f ps (m(pk_name p \<mapsto> layout))" by (simp only: step)
    also have "\<dots> = m(pk_name p \<mapsto> layout) ++ map_of ?X" by (rule Cons.IH)
    also have "\<dots> = m ++ map_of (?X @ [(pk_name p, layout)])" by (rule key)
    finally show ?thesis by (simp only: r)
  qed
qed

lemma analyzePackets_result:
  assumes "0 < an_maxConcurrency an"
  shows "analyzePackets an gen packets =
           Some (map (map (\<lambda>p. fst (gen (requestFor an p))))
                   (chunks (nat (an_maxConcurrency an)) (filter hasContext packets)),
                 Inr (map_of (rev (successes an gen (filter hasContext packets)))))"
proof -
  from assms have k: "0 < nat (an_maxConcurrency an)" by simp
  have "\<forall>p\<in>set (filter hasContext packets). hasContext p" by simp
  from analyzeLoop_result [OF k refl this, of gen Map.empty "[]"]
  show ?thesis by (simp add: analyzePackets_def fold_storeResult_map_of)
qed

lemma layoutOf_Some:
  assumes "layoutOf an gen p = Some layout"
  shows "hasContext p \<and> (\<exists>output. snd (gen (requestFor an p)) = Inr (Some output)
                                   \<and> layout = normalizeLayout output p)"
  using assms
  by (auto simp: layoutOf_def analyzePacket_def tryCatch_def Let_def
      split: if_splits sum.splits option.splits)

lemma layoutOf_None:
  assumes "\<not> hasContext p \<or> (\<exists>error. snd (gen (requestFor an p)) = Inl error)
           \<or> snd (gen (requestFor an p)) = Inr None"
  shows "layoutOf an gen p = None"
  using assms
  by (auto simp: layoutOf_def analyzePacket_def tryCatch_def Let_def
      split: if_splits sum.splits option.splits)

lemma successes_member:
  "(name, layout) \<in> set (successes an gen ps) \<longleftrightarrow>
     (\<exists>p\<in>set ps. pk_name p = name \<and> layoutOf an gen p = Some layout)"
  by (auto simp: successes_def set_map_filter_aux)

lemma results_present:
  assumes "p \<in> set ps" and "layoutOf an gen p = Some layout"
  shows "map_of (rev (successes an gen ps)) (pk_name p) \<noteq> None"
proof -
  from assms have "(pk_name p, layout) \<in> set (rev (successes an gen ps))"
    by (auto simp: successes_member)
  then have "pk_name p \<in> fst ` set (rev (successes an gen ps))"
    by (rule rev_image_eqI) simp
  with map_of_eq_None_iff [of "rev (successes an gen ps)" "pk_name p"]
  show ?thesis by blast
qed

lemma results_absent:
  assumes "\<forall>q\<in>set ps. pk_name q = name \<longrightarrow> layoutOf an gen q = None"
  shows "map_of (rev (successes an gen ps)) name = None"
proof -
  have "name \<notin> fst ` set (rev (successes an gen ps))"
  proof
    assume "name \<in> fst ` set (rev (successes an gen ps))"
    then obtain layout where "(name, layout) \<in> set (successes an gen ps)" by auto
    with assms show False by (auto simp: successes_member)
  qed
  with map_of_eq_None_iff [of "rev (successes an gen ps)" name]
  show ?thesis by blast
qed

lemma results_origin:
  assumes "map_of (rev (successes an gen ps)) name = Some layout"
  shows "\<exists>p\<in>set ps. pk_name p = name \<and> layoutOf an gen p = Some layout"
proof -
  from assms have "(name, layout) \<in> set (rev (successes an gen ps))" by (rule map_of_SomeD)
  then show ?thesis by (simp add: successes_member)
qed

text \<open>
  The limit of an analyzer that the constructor builds is never zero, and a negative one
  is kept. With a limit that is not positive the loop removes nothing from a non-empty
  queue, and does not return.
\<close>

lemma analyzeLoop_no_progress:
  assumes "analyzeLoop an gen queue results groups = Some y"
  shows "\<not> (an_maxConcurrency an \<le> 0 \<and> queue \<noteq> [])"
proof (rule analyzeLoop.raw_induct
    [where P = "\<lambda>an gen queue results groups y. \<not> (an_maxConcurrency an \<le> 0 \<and> queue \<noteq> [])",
      OF _ assms], goal_cases)
  case (1 loop an gen queue results groups y)
  show ?case
  proof
    assume a: "an_maxConcurrency an \<le> 0 \<and> queue \<noteq> []"
    then have "nat (an_maxConcurrency an) = 0" by simp
    with a 1(2) have "loop an gen queue results (groups @ [[]]) = Some y"
      by (simp add: Let_def)
    from 1(1) [OF this] a show False by simp
  qed
qed

lemma analyzeLoop_diverges:
  assumes "an_maxConcurrency an \<le> 0" and "queue \<noteq> []"
  shows "analyzeLoop an gen queue results groups = None"
proof (cases "analyzeLoop an gen queue results groups")
  case None
  then show ?thesis .
next
  case (Some y)
  from analyzeLoop_no_progress [OF this] assms show ?thesis by simp
qed

lemma newLayoutAnalyzer_limit:
  "an_maxConcurrency (newLayoutAnalyzer model None prompt) = 5"
  "an_maxConcurrency (newLayoutAnalyzer model (Some 0) prompt) = 5"
  "k \<noteq> 0 \<Longrightarrow> an_maxConcurrency (newLayoutAnalyzer model (Some k) prompt) = k"
  by (simp_all add: newLayoutAnalyzer_def)

text \<open>
  C2 (as amended). With a positive concurrency limit \<open>K\<close>, \<open>analyzePackets\<close> returns.
  The packets without a context are dropped first; the remaining \<open>N\<close> packets are handled
  in consecutive groups of \<open>K\<close>, each packet by one call of \<open>analyzePacket\<close>: there are
  \<open>\<lceil>N/K\<rceil>\<close> groups and none has more than \<open>K\<close> calls, a call sending what its call
  of the inference library sends. The returned map holds, for each name, the layout of
  the last scheduled packet of that name whose analysis succeeded; so a success is in the
  map whatever happened to the other members of its group.
\<close>

theorem analyzePackets_groups_for_positive_limit:
  assumes "0 < an_maxConcurrency an"
  shows "\<exists>groups results.
           analyzePackets an generateText packets = Some (groups, Inr results)
           \<and> groups = map (map (\<lambda>p. fst (generateText (requestFor an p))))
                         (chunks (nat (an_maxConcurrency an)) (filter hasContext packets))
           \<and> concat groups =
               map (\<lambda>p. fst (generateText (requestFor an p))) (filter hasContext packets)
           \<and> length groups =
                (length (filter hasContext packets) + nat (an_maxConcurrency an) - 1)
                  div nat (an_maxConcurrency an)
           \<and> (\<forall>g\<in>set groups. length g \<le> nat (an_maxConcurrency an))
           \<and> results = map_of (rev (successes an generateText (filter hasContext packets)))
           \<and> (\<forall>p\<in>set packets. \<forall>layout.
                  hasContext p \<and> snd (analyzePacket an generateText p) = Inr (Some layout)
                  \<longrightarrow> results (pk_name p) \<noteq> None)"
proof -
  let ?k = "nat (an_maxConcurrency an)"
  let ?queue = "filter hasContext packets"
  let ?c = "\<lambda>p. fst (generateText (requestFor an p))"
  let ?groups = "map (map ?c) (chunks ?k ?queue)"
  let ?results = "map_of (rev (successes an generateText ?queue))"
  from assms have k: "0 < ?k" by simp
  have a: "analyzePackets an generateText packets = Some (?groups, Inr ?results)"
    using assms by (rule analyzePackets_result)
  have b: "concat ?groups = map ?c ?queue"
    by (simp only: map_concat [symmetric] concat_chunks [OF k])
  have c: "length ?groups = (length ?queue + ?k - 1) div ?k"
    by (simp only: length_map length_chunks [OF k])
  have d: "\<forall>g\<in>set ?groups. length g \<le> ?k"
    using chunks_le [OF k] by auto
  have e: "\<forall>p\<in>set packets. \<forall>layout.
             hasContext p \<and> snd (analyzePacket an generateText p) = Inr (Some layout)
             \<longrightarrow> ?results (pk_name p) \<noteq> None"
  proof (intro ballI allI impI)
    fix p layout
    assume p: "p \<in> set packets"
      and h: "hasContext p \<and> snd (analyzePacket an generateText p) = Inr (Some layout)"
    from h have "layoutOf an generateText p = Some layout" by (simp add: layoutOf_def)
    moreover from p h have "p \<in> set ?queue" by simp
    ultimately show "?results (pk_name p) \<noteq> None" by (rule results_present [rotated])
  qed
  from a b c d e show ?thesis by blast
qed

theorem analyzePackets_groups_for_positive_limit_witness:
  "0 < an_maxConcurrency ex_analyzer
   \<and> map (map (map rq_prompt)) (groupsOf (analyzePackets ex_analyzer ex_generateText ex_batch))
       = [[[''read A''], [''read B'', ''read B'', ''read B'']], [[''read D'']]]
   \<and> length (groupsOf (analyzePackets ex_analyzer ex_generateText ex_batch)) = (3 + 2 - 1) div 2
   \<and> resultsOf (analyzePackets ex_analyzer ex_generateText ex_batch) ''A'' \<noteq> None
   \<and> resultsOf (analyzePackets ex_analyzer ex_generateText ex_batch) ''B'' = None"
proof -
  have h: "0 < an_maxConcurrency ex_analyzer"
    by (simp add: ex_analyzer_def newLayoutAnalyzer_def)
  have k: "nat (an_maxConcurrency ex_analyzer) = 2"
    by (simp add: ex_analyzer_def newLayoutAnalyzer_def)
  from analyzePackets_groups_for_positive_limit [OF h, of ex_generateText ex_batch]
  obtain groups results where
    r: "analyzePackets ex_analyzer ex_generateText ex_batch = Some (groups, Inr results)"
    and g: "groups = map (map (\<lambda>p. fst (ex_generateText (requestFor ex_analyzer p))))
                       (chunks (nat (an_maxConcurrency ex_analyzer)) (filter hasContext ex_batch))"
    and m: "results = map_of (rev (successes ex_analyzer ex_generateText (filter hasContext ex_batch)))"
    and l: "length groups =
              (length (filter hasContext ex_batch) + nat (an_maxConcurrency ex_analyzer) - 1)
                div nat (an_maxConcurrency ex_analyzer)"
    by blast
  have n: "length (filter hasContext ex_batch) = 3"
    by code_simp
  from l n k have l': "length groups = (3 + 2 - 1) div 2" by simp
  have g': "map (map (map rq_prompt))
              (map (map (\<lambda>p. fst (ex_generateText (requestFor ex_analyzer p))))
                 (chunks 2 (filter hasContext ex_batch)))
            = [[[''read A''], [''read B'', ''read B'', ''read B'']], [[''read D'']]]"
    by code_simp
  have m': "map fst (successes ex_analyzer ex_generateText (filter hasContext ex_batch)) = [''A'']"
    by code_simp
  from m' have "set (map fst (successes ex_analyzer ex_generateText (filter hasContext ex_batch)))
                  = set [''A'']"
    by (rule arg_cong)
  then have s: "fst ` set (successes ex_analyzer ex_generateText (filter hasContext ex_batch)) = {''A''}"
    by simp
  from s have a: "map_of (rev (successes ex_analyzer ex_generateText (filter hasContext ex_batch))) ''A''
                     \<noteq> None"
    by (simp add: map_of_eq_None_iff)
  from s have b: "map_of (rev (successes ex_analyzer ex_generateText (filter hasContext ex_batch))) ''B''
                     = None"
    by (simp add: map_of_eq_None_iff)
  from g k g' have g'': "map (map (map rq_prompt)) groups
                           = [[[''read A''], [''read B'', ''read B'', ''read B'']], [[''read D'']]]"
    by simp
  from m a b have ab: "results ''A'' \<noteq> None \<and> results ''B'' = None" by simp
  from r have "groupsOf (analyzePackets ex_analyzer ex_generateText ex_batch) = groups"
    and "resultsOf (analyzePackets ex_analyzer ex_generateText ex_batch) = results"
    by (simp_all add: groupsOf_def resultsOf_def)
  with h l' g'' ab show ?thesis by simp
qed

text \<open>
  The claim as stated, for every concurrency limit, fails for a negative one: the
  constructor keeps the limit \<open>- 1\<close>, and the run over a single packet with a context
  then never returns.
\<close>

theorem negative_limit_never_returns_counterexample:
  "an_maxConcurrency (newLayoutAnalyzer None (Some (- 1)) ''prompt'') = - 1
   \<and> list_all hasContext [ex_packetA]
   \<and> analyzePackets (newLayoutAnalyzer None (Some (- 1)) ''prompt'') ex_generateText [ex_packetA]
       = None"
proof -
  have k: "an_maxConcurrency (newLayoutAnalyzer None (Some (- 1)) ''prompt'') = - 1"
    by (simp add: newLayoutAnalyzer_def)
  have c: "list_all hasContext [ex_packetA]"
    by code_simp
  then have q: "filter hasContext [ex_packetA] = [ex_packetA]" by simp
  have "analyzeLoop (newLayoutAnalyzer None (Some (- 1)) ''prompt'') ex_generateText [ex_packetA]
          Map.empty [] = None"
    by (rule analyzeLoop_diverges) (simp_all add: k)
  with k c q show ?thesis by (simp add: analyzePackets_def)
qed

text \<open>
  C3 (as amended). \<open>analyzePacket\<close> never completes with a thrown error. For a packet
  with a context it calls the inference library once, and what is sent is what that one
  call sends: with the library as the source configures it, the same request between one
  and three times; for a packet without a context nothing is sent. Its result is
  \<^verbatim>\<open>null\<close> when the packet has no context, when the call throws and when the result has
  no structured output. In a batch (with a positive concurrency limit) the run still
  returns its map, and a name all of whose packets gave \<^verbatim>\<open>null\<close> is simply not in it.
\<close>

theorem analyzePacket_null_one_call:
  "(\<forall>error. snd (analyzePacket an generateText p) \<noteq> Inl error)
   \<and> fst (analyzePacket an generateText p)
       = (if hasContext p then fst (generateText (requestFor an p)) else [])
   \<and> (hasContext p \<longrightarrow>
        1 \<le> length (fst (analyzePacket an (generateTextLibrary sv) p))
        \<and> length (fst (analyzePacket an (generateTextLibrary sv) p)) \<le> 3
        \<and> set (fst (analyzePacket an (generateTextLibrary sv) p)) = {requestFor an p})
   \<and> (\<not> hasContext p \<or> (\<exists>error. snd (generateText (requestFor an p)) = Inl error)
        \<or> snd (generateText (requestFor an p)) = Inr None
      \<longrightarrow> snd (analyzePacket an generateText p) = Inr None)
   \<and> (0 < an_maxConcurrency an \<longrightarrow>
        (\<exists>groups results.
           analyzePackets an generateText packets = Some (groups, Inr results)
           \<and> (\<forall>q\<in>set packets.
                 (\<forall>q'\<in>set packets. pk_name q' = pk_name q
                     \<longrightarrow> snd (analyzePacket an generateText q') = Inr None)
                 \<longrightarrow> results (pk_name q) = None)))"
proof (intro conjI impI allI)
  fix error
  show "snd (analyzePacket an generateText p) \<noteq> Inl error"
    by (rule analyzePacket_never_throws)
next
  show "fst (analyzePacket an generateText p)
          = (if hasContext p then fst (generateText (requestFor an p)) else [])"
    by (rule analyzePacket_requests)
next
  assume c: "hasContext p"
  let ?sent = "fst (sendAttempts sv (requestFor an p) 0 2)"
  from c have s: "fst (analyzePacket an (generateTextLibrary sv) p) = ?sent"
    by (simp add: analyzePacket_requests generateTextLibrary_def)
  from sendAttempts_requests [of sv "requestFor an p" 0 2]
  have ne: "?sent \<noteq> []" and le: "length ?sent \<le> 3" and eq: "set ?sent = {requestFor an p}"
    by simp_all
  from ne have "1 \<le> length ?sent" by (cases ?sent) simp_all
  then show "1 \<le> length (fst (analyzePacket an (generateTextLibrary sv) p))"
    by (simp only: s)
  from le show "length (fst (analyzePacket an (generateTextLibrary sv) p)) \<le> 3"
    by (simp only: s)
  from eq show "set (fst (analyzePacket an (generateTextLibrary sv) p)) = {requestFor an p}"
    by (simp only: s)
next
  assume "\<not> hasContext p \<or> (\<exists>error. snd (generateText (requestFor an p)) = Inl error)
          \<or> snd (generateText (requestFor an p)) = Inr None"
  then have "layoutOf an generateText p = None" by (rule layoutOf_None)
  then show "snd (analyzePacket an generateText p) = Inr None"
    by (simp add: analyzePacket_layoutOf)
next
  assume k: "0 < an_maxConcurrency an"
  let ?queue = "filter hasContext packets"
  let ?results = "map_of (rev (successes an generateText ?queue))"
  have "\<forall>q\<in>set packets.
          (\<forall>q'\<in>set packets. pk_name q' = pk_name q
              \<longrightarrow> snd (analyzePacket an generateText q') = Inr None)
          \<longrightarrow> ?results (pk_name q) = None"
  proof (intro ballI impI)
    fix q
    assume "q \<in> set packets"
      and n: "\<forall>q'\<in>set packets. pk_name q' = pk_name q
                \<longrightarrow> snd (analyzePacket an generateText q') = Inr None"
    have "\<forall>q'\<in>set ?queue. pk_name q' = pk_name q \<longrightarrow> layoutOf an generateText q' = None"
      using n by (auto simp: layoutOf_def)
    then show "?results (pk_name q) = None" by (rule results_absent)
  qed
  with analyzePackets_result [OF k, of generateText packets]
  show "\<exists>groups results.
          analyzePackets an generateText packets = Some (groups, Inr results)
          \<and> (\<forall>q\<in>set packets.
                (\<forall>q'\<in>set packets. pk_name q' = pk_name q
                    \<longrightarrow> snd (analyzePacket an generateText q') = Inr None)
                \<longrightarrow> results (pk_name q) = None)"
    by blast
qed

theorem analyzePacket_null_one_call_witness:
  "snd (ex_generateText (requestFor ex_analyzer ex_packetB)) = Inl (Thrown ''timeout'')
   \<and> snd (analyzePacket ex_analyzer ex_generateText ex_packetB) = Inr None
   \<and> fst (analyzePacket ex_analyzer ex_generateText ex_packetB)
       = fst (ex_generateText (requestFor ex_analyzer ex_packetB))
   \<and> hasContext ex_packetB
   \<and> length (fst (analyzePacket ex_analyzer (generateTextLibrary ex_service) ex_packetB)) \<le> 3
   \<and> 0 < an_maxConcurrency ex_analyzer
   \<and> ex_packetB \<in> set ex_batch
   \<and> resultsOf (analyzePackets ex_analyzer ex_generateText ex_batch) ''B'' = None"
proof -
  have t: "snd (ex_generateText (requestFor ex_analyzer ex_packetB)) = Inl (Thrown ''timeout'')"
    by code_simp
  have c: "hasContext ex_packetB"
    by code_simp
  have k: "0 < an_maxConcurrency ex_analyzer"
    by (simp add: ex_analyzer_def newLayoutAnalyzer_def)
  have b: "ex_packetB \<in> set ex_batch"
    by (simp add: ex_batch_def ex_packetB_def)
  have nm: "pk_name ex_packetB = ''B''"
    by (simp add: ex_packetB_def ex_packet_def)
  have others: "\<forall>q'\<in>set ex_batch. pk_name q' = ''B''
                  \<longrightarrow> snd (ex_generateText (requestFor ex_analyzer q')) = Inl (Thrown ''timeout'')"
    by code_simp
  note inst = analyzePacket_null_one_call [of ex_analyzer ex_generateText _ ex_service ex_batch]
  from inst [of ex_packetB] t c
  have n: "snd (analyzePacket ex_analyzer ex_generateText ex_packetB) = Inr None"
    and f: "fst (analyzePacket ex_analyzer ex_generateText ex_packetB)
              = fst (ex_generateText (requestFor ex_analyzer ex_packetB))"
    and le: "length (fst (analyzePacket ex_analyzer (generateTextLibrary ex_service) ex_packetB)) \<le> 3"
    by simp_all
  have nulls: "\<forall>q'\<in>set ex_batch. pk_name q' = pk_name ex_packetB
                 \<longrightarrow> snd (analyzePacket ex_analyzer ex_generateText q') = Inr None"
  proof (intro ballI impI)
    fix q'
    assume "q' \<in> set ex_batch" and "pk_name q' = pk_name ex_packetB"
    with others nm have "snd (ex_generateText (requestFor ex_analyzer q')) = Inl (Thrown ''timeout'')"
      by simp
    with inst [of q'] show "snd (analyzePacket ex_analyzer ex_generateText q') = Inr None"
      by blast
  qed
  from inst [of ex_packetB] k obtain groups results where
    r: "analyzePackets ex_analyzer ex_generateText ex_batch = Some (groups, Inr results)"
    and a: "\<forall>q\<in>set ex_batch.
              (\<forall>q'\<in>set ex_batch. pk_name q' = pk_name q
                  \<longrightarrow> snd (analyzePacket ex_analyzer ex_generateText q') = Inr None)
              \<longrightarrow> results (pk_name q) = None"
    by blast
  from a b nulls have "results (pk_name ex_packetB) = None" by blast
  with r nm have "resultsOf (analyzePackets ex_analyzer ex_generateText ex_batch) ''B'' = None"
    by (simp add: resultsOf_def)
  with t n f c le k b show ?thesis by simp
qed

text \<open>
  The claim as stated, exactly one request per packet and no retry, fails when the
  service keeps answering the request of \<^verbatim>\<open>B\<close> with a transient error: the one call of
  the library sends the request three times before \<open>analyzePacket\<close> gives \<^verbatim>\<open>null\<close>.
\<close>

theorem request_sent_again_counterexample:
  "hasContext ex_packetB
   \<and> map rq_prompt (fst (analyzePacket ex_analyzer (generateTextLibrary ex_service) ex_packetB))
       = [''read B'', ''read B'', ''read B'']
   \<and> map_sum id (map_option la_packetName)
       (snd (analyzePacket ex_analyzer (generateTextLibrary ex_service) ex_packetB)) = Inr None"
  by code_simp

text \<open>
  C5 (as amended). For every packet, the analysis completes without a thrown error, either
  with \<^verbatim>\<open>null\<close> or with the normalised structured output of the service; the names in
  its field list are then exactly the names in the output's field list, in order. They
  are not compared with the declared field names of the packet.
\<close>

theorem analysis_field_names_are_the_outputs:
  "snd (analyzePacket an generateText p) = Inr None
   \<or> (\<exists>output.
         snd (generateText (requestFor an p)) = Inr (Some output)
         \<and> snd (analyzePacket an generateText p) = Inr (Some (normalizeLayout output p))
         \<and> la_packetName (normalizeLayout output p) = pk_name p
         \<and> map fl_name (la_fields (normalizeLayout output p)) = map fo_name (lo_fields output))"
proof (cases "layoutOf an generateText p")
  case None
  then show ?thesis by (simp add: analyzePacket_layoutOf)
next
  case (Some layout)
  from layoutOf_Some [OF this] obtain out where
    o: "snd (generateText (requestFor an p)) = Inr (Some out)" "layout = normalizeLayout out p"
    by blast
  have "map fl_name (la_fields (normalizeLayout out p)) = map fo_name (lo_fields out)"
    by (simp add: normalizeLayout_def normalizeField_def comp_def)
  moreover have "la_packetName (normalizeLayout out p) = pk_name p"
    by (simp add: normalizeLayout_def)
  ultimately show ?thesis
    using Some o by (auto simp: analyzePacket_layoutOf)
qed

theorem analysis_field_names_are_the_outputs_witness:
  "snd (ex_generateText (requestFor ex_analyzer ex_packetA)) = Inr (Some ex_output)
   \<and> snd (analyzePacket ex_analyzer ex_generateText ex_packetA)
       = Inr (Some (normalizeLayout ex_output ex_packetA))
   \<and> map fo_name (lo_fields ex_output) = [''bogus'', ''other'']"
proof -
  have o: "snd (ex_generateText (requestFor ex_analyzer ex_packetA)) = Inr (Some ex_output)"
    by code_simp
  have n: "map fo_name (lo_fields ex_output) = [''bogus'', ''other'']"
    by (simp add: ex_output_def ex_fieldOutput_def)
  have c: "hasContext ex_packetA"
    by (simp add: hasContext_def ex_packetA_def ex_packet_def)
  from c o have s: "snd (analyzePacket ex_analyzer ex_generateText ex_packetA) \<noteq> Inr None"
    by (simp add: analyzePacket_def tryCatch_def Let_def)
  from analysis_field_names_are_the_outputs [of ex_analyzer ex_generateText ex_packetA] o s
  have "snd (analyzePacket ex_analyzer ex_generateText ex_packetA)
          = Inr (Some (normalizeLayout ex_output ex_packetA))"
    by auto
  with o n show ?thesis by simp
qed

text \<open>
  The claim as stated fails when the service names a field that the packet does not
  declare: the name is taken over.
\<close>

theorem undeclared_field_name_counterexample:
  "map_sum id (map_option (map fl_name \<circ> la_fields))
     (snd (analyzePacket ex_analyzer ex_generateText ex_packetA))
     = Inr (Some [''bogus'', ''other''])
   \<and> map fi_name (pk_fields ex_packetA) = [''id'']
   \<and> \<not> set [''bogus'', ''other''] \<subseteq> set [''id'']"
  by code_simp

text \<open>
  C7 (as amended). Every layout in the map that a run returns is the normalised structured
  output that the service gave for a scheduled packet of that name; the \<open>nullBit\<close> of
  each of its fields is the one of the corresponding output field, an integer or absent
  as the schema requires. Neither a power of two nor distinctness is checked.
\<close>

theorem accepted_nullBits_are_the_outputs:
  assumes "0 < an_maxConcurrency an"
    and "analyzePackets an generateText packets = Some (groups, Inr results)"
    and "results name = Some layout"
  shows "\<exists>p\<in>set packets. \<exists>output.
           hasContext p \<and> pk_name p = name
           \<and> snd (generateText (requestFor an p)) = Inr (Some output)
           \<and> layout = normalizeLayout output p
           \<and> map fl_nullBit (la_fields layout) = map fo_nullBit (lo_fields output)"
proof -
  from analyzePackets_result [OF assms(1), of generateText packets] assms(2)
  have "results = map_of (rev (successes an generateText (filter hasContext packets)))"
    by simp
  with assms(3) have "map_of (rev (successes an generateText (filter hasContext packets))) name
                        = Some layout"
    by simp
  from results_origin [OF this] obtain p where
    p: "p \<in> set packets" "hasContext p" "pk_name p = name"
    and l: "layoutOf an generateText p = Some layout"
    by auto
  from layoutOf_Some [OF l] obtain out where
    o: "snd (generateText (requestFor an p)) = Inr (Some out)" "layout = normalizeLayout out p"
    by blast
  have "map fl_nullBit (la_fields (normalizeLayout out p)) = map fo_nullBit (lo_fields out)"
    by (simp add: normalizeLayout_def normalizeField_def comp_def)
  with p o show ?thesis by blast
qed

theorem accepted_nullBits_are_the_outputs_witness:
  "0 < an_maxConcurrency ex_analyzer
   \<and> resultsOf (analyzePackets ex_analyzer ex_generateText ex_batch) ''A'' \<noteq> None
   \<and> (\<exists>p\<in>set ex_batch. \<exists>output.
         hasContext p \<and> pk_name p = ''A''
         \<and> snd (ex_generateText (requestFor ex_analyzer p)) = Inr (Some output)
         \<and> map fl_nullBit
             (la_fields (the (resultsOf (analyzePackets ex_analyzer ex_generateText ex_batch) ''A'')))
           = map fo_nullBit (lo_fields output))"
proof -
  let ?results = "map_of (rev (successes ex_analyzer ex_generateText (filter hasContext ex_batch)))"
  let ?groups = "map (map (\<lambda>p. fst (ex_generateText (requestFor ex_analyzer p))))
                   (chunks (nat (an_maxConcurrency ex_analyzer)) (filter hasContext ex_batch))"
  have k: "0 < an_maxConcurrency ex_analyzer"
    by (simp add: ex_analyzer_def newLayoutAnalyzer_def)
  have r: "analyzePackets ex_analyzer ex_generateText ex_batch = Some (?groups, Inr ?results)"
    using k by (rule analyzePackets_result)
  have m: "map fst (successes ex_analyzer ex_generateText (filter hasContext ex_batch)) = [''A'']"
    by code_simp
  then have "set (map fst (successes ex_analyzer ex_generateText (filter hasContext ex_batch)))
               = set [''A'']"
    by (rule arg_cong)
  then have "fst ` set (successes ex_analyzer ex_generateText (filter hasContext ex_batch)) = {''A''}"
    by simp
  then have ne: "?results ''A'' \<noteq> None"
    by (simp add: map_of_eq_None_iff)
  then have s: "?results ''A'' = Some (the (?results ''A''))"
    by simp
  from r have ro: "resultsOf (analyzePackets ex_analyzer ex_generateText ex_batch) = ?results"
    by (simp add: resultsOf_def)
  from accepted_nullBits_are_the_outputs [OF k r s]
  have "\<exists>p\<in>set ex_batch. \<exists>output.
          hasContext p \<and> pk_name p = ''A''
          \<and> snd (ex_generateText (requestFor ex_analyzer p)) = Inr (Some output)
          \<and> map fl_nullBit (la_fields (the (?results ''A''))) = map fo_nullBit (lo_fields output)"
    by blast
  with k ne ro show ?thesis by simp
qed

text \<open>
  The claim as stated fails when the service reports the bit value 3 for two fields: the
  layout is accepted into the map with both values.
\<close>

theorem shared_odd_nullBit_counterexample:
  "map_option (map fl_nullBit \<circ> la_fields)
     (resultsOf (analyzePackets ex_analyzer ex_generateText ex_batch) ''A'')
     = Some [Some 3, Some 3]
   \<and> \<not> isPowerOfTwo 3
   \<and> \<not> distinct [3 :: int, 3]"
proof -
  have k: "0 < an_maxConcurrency ex_analyzer"
    by (simp add: ex_analyzer_def newLayoutAnalyzer_def)
  have "map_option (map fl_nullBit \<circ> la_fields)
          (map_of (rev (successes ex_analyzer ex_generateText (filter hasContext ex_batch))) ''A'')
        = Some [Some 3, Some 3]"
    by code_simp
  moreover have "\<not> isPowerOfTwo 3"
    by code_simp
  ultimately show ?thesis
    by (simp add: analyzePackets_result [OF k] resultsOf_def)
qed

end
